theory Spec2Isabelle
  imports Main
begin

section \<open>Values, exceptions, messages\<close>

text \<open>
  The chat service drives a language model and ten remote tools through a small graph:
  node \<open>llm\<close> asks the model, node \<open>call_api\<close> executes the tool calls of the model's
  last message, node \<open>limit_llm_request\<close> asks the model one last time once the budget
  of iterations is used up.  The model provider, the remote task manager, the
  conversions of the validation library and Python's own \<open>str()\<close> are outside the
  repository; they are parameters of the embedding (record \<open>env\<close>), and every theorem
  holds for all of them.
\<close>

text \<open>
  Python values that travel in tool arguments, request bodies and JSON replies.
  \<open>PDatetime t\<close> is a \<open>datetime\<close> object, named by the text \<open>t\<close> it has in JSON mode.
\<close>

datatype pyval =
    PNone
  | PBool bool
  | PInt int
  | PStr string
  | PDatetime string
  | PList "pyval list"
  | PDict "(string \<times> pyval) list"

type_synonym dict = "string \<rightharpoonup> pyval"

text \<open>
  Exceptions, one constructor per class the code raises or names in an \<open>except\<close>
  clause.  \<open>OtherException\<close> stands for an instance of any other subclass of
  \<open>Exception\<close>.
\<close>

datatype exc =
    HTTPException nat string
  | NotImplementedError string
  | KeyError string
  | IndexError
  | AttributeError string
  | UnboundLocalError string
  | JSONDecodeError
  | ValidationError string
  | ChatGoogleGenerativeAIError string
  | LangChainException string
  | OtherException string

record tool_call =
  tc_name :: string
  tc_args :: dict
  tc_id :: string

datatype message =
    SystemMessage string
  | HumanMessage string
  | AIMessage string "tool_call list"
  | ToolMessage string string string

text \<open>\<open>ToolMessage content tool_call_id name\<close>; \<open>AIMessage content tool_calls\<close>.\<close>

fun content :: "message \<Rightarrow> string" where
  "content (SystemMessage c) = c"
| "content (HumanMessage c) = c"
| "content (AIMessage c tcs) = c"
| "content (ToolMessage c i n) = c"

text \<open>
  Only an \<open>AIMessage\<close> has the attribute \<open>tool_calls\<close>; \<open>None\<close> is the missing
  attribute.
\<close>

fun tool_calls :: "message \<Rightarrow> tool_call list option" where
  "tool_calls (AIMessage c tcs) = Some tcs"
| "tool_calls m = None"

section \<open>The environment and the record of effects\<close>

datatype node = START | Llm | Call_api | Limit_llm_request | END

datatype http_method = GET | POST | PATCH | DELETE

record request =
  verb :: http_method
  url :: string
  params :: "dict option"
  json :: "dict option"
  headers :: "string \<rightharpoonup> string"

text \<open>
  What the HTTP client does with a request.
  \<^item> \<open>Transport_failure\<close>: the client call raises an \<open>httpx.HTTPError\<close>; no response
    object exists.
  \<^item> \<open>Client_raises e\<close>: the client call raises \<open>e\<close>, which is not an \<open>HTTPError\<close> (so
    does a body that cannot be written as JSON).
  \<^item> \<open>Reply err body\<close>: a response arrives; \<open>err = Some t\<close> when
    \<open>raise_for_status()\<close> raises an \<open>HTTPStatusError\<close> whose text is \<open>t\<close>;
    \<open>body = Some v\<close> when the body decodes as JSON to \<open>v\<close>, \<open>None\<close> when
    \<open>response.json()\<close> raises.
\<close>

datatype http_outcome =
    Transport_failure string
  | Client_raises exc
  | Reply "string option" "pyval option"

text \<open>What the provider's \<open>ainvoke\<close> does: an \<open>AIMessage\<close>, or an exception.\<close>

datatype provider_outcome =
    Responds string "tool_call list"
  | Raises exc

text \<open>
  One entry of the log of model invocations: the node that was running, whether the
  tool-bound model was used, and the messages sent.
\<close>

type_synonym llm_entry = "node \<times> bool \<times> message list"

text \<open>
  The provider and the remote API may answer differently each time: both see the log of
  earlier invocations.  \<open>limit_gemini_request_per_message\<close> and \<open>task_manager_base_url\<close>
  are the values of \<open>config.py\<close>; \<open>py_str\<close> and \<open>exc_str\<close> are Python's \<open>str()\<close> on a
  value and on an exception.  The five functions \<open>lax_...\<close> are the validation library's
  conversions: what a field of the declared type makes of a value that is not of that
  type already (\<open>None\<close>: the value is rejected); \<open>lax_datetime\<close> gives the datetime by
  its text in JSON mode.
\<close>

record env =
  provider :: "llm_entry list \<Rightarrow> bool \<Rightarrow> message list \<Rightarrow> provider_outcome"
  remote :: "request list \<Rightarrow> request \<Rightarrow> http_outcome"
  py_str :: "pyval \<Rightarrow> string"
  exc_str :: "exc \<Rightarrow> string"
  lax_int :: "pyval \<Rightarrow> int option"
  lax_str :: "pyval \<Rightarrow> string option"
  lax_bool :: "pyval \<Rightarrow> bool option"
  lax_list :: "pyval \<Rightarrow> pyval list option"
  lax_datetime :: "pyval \<Rightarrow> string option"
  task_manager_base_url :: string
  limit_gemini_request_per_message :: int

record world =
  running :: node
  llm_log :: "llm_entry list"
  http_log :: "request list"

text \<open>An f-string field \<open>{v}\<close>: a \<open>str\<close> is inserted as it is.\<close>

definition format_value :: "env \<Rightarrow> pyval \<Rightarrow> string" where
  "format_value env v = (case v of PStr t \<Rightarrow> t | _ \<Rightarrow> py_str env v)"

section \<open>repositories/gemini_repo.py\<close>

text \<open>
  \<open>llm_generate(messages, with_tools=True)\<close>: the tool-bound model when \<open>with_tools\<close>,
  the bare model otherwise.  The two \<open>except\<close> clauses turn a
  \<open>ChatGoogleGenerativeAIError\<close> and a \<open>LangChainException\<close> into \<open>None\<close>; any other
  exception propagates.
\<close>

fun caught_by_llm_generate :: "exc \<Rightarrow> bool" where
  "caught_by_llm_generate (ChatGoogleGenerativeAIError t) = True"
| "caught_by_llm_generate (LangChainException t) = True"
| "caught_by_llm_generate e = False"

definition llm_generate ::
  "env \<Rightarrow> message list \<Rightarrow> bool \<Rightarrow> world \<Rightarrow> world \<times> (exc + message option)" where
  "llm_generate env msgs with_tools w =
     (let w' = w\<lparr>llm_log := llm_log w @ [(running w, with_tools, msgs)]\<rparr>
      in case provider env (llm_log w) with_tools msgs of
           Responds c tcs \<Rightarrow> (w', Inr (Some (AIMessage c tcs)))
         | Raises e \<Rightarrow>
             if caught_by_llm_generate e then (w', Inr None) else (w', Inl e))"

section \<open>schemas/task_schemas.py and schemas/collection_schemas.py\<close>

text \<open>
  The schemas are models of the validation library.  A field accepts a value that
  already has the declared type as it is; whether any other value converts, and to what,
  is the library's decision (\<open>lax_int\<close>, \<open>lax_str\<close>, \<open>lax_bool\<close>, \<open>lax_list\<close>,
  \<open>lax_datetime\<close> of the environment).  Field by field: \<open>int\<close>, \<open>str\<close>, \<open>bool\<close>,
  \<open>datetime\<close> (the field \<open>deadline\<close> of \<open>TaskBase\<close>, which yields a \<open>datetime\<close> object)
  and \<open>list\<close>.
\<close>

fun as_int :: "env \<Rightarrow> pyval \<Rightarrow> int option" where
  "as_int env (PInt i) = Some i"
| "as_int env v = lax_int env v"

fun as_str :: "env \<Rightarrow> pyval \<Rightarrow> string option" where
  "as_str env (PStr t) = Some t"
| "as_str env v = lax_str env v"

fun as_bool :: "env \<Rightarrow> pyval \<Rightarrow> bool option" where
  "as_bool env (PBool b) = Some b"
| "as_bool env v = lax_bool env v"

fun as_datetime :: "env \<Rightarrow> pyval \<Rightarrow> string option" where
  "as_datetime env (PDatetime t) = Some t"
| "as_datetime env v = lax_datetime env v"

fun as_list :: "env \<Rightarrow> pyval \<Rightarrow> pyval list option" where
  "as_list env (PList vs) = Some vs"
| "as_list env v = lax_list env v"

section \<open>repositories/task_manager_repo.py\<close>

text \<open>
  Every tool ends with the same block: send the request inside
  \<open>try ... except HTTPError\<close>, call \<open>raise_for_status()\<close>, and return
  \<open>response.json()\<close>.  The handler logs \<open>response.json()\<close> before it returns
  \<open>str(e)\<close>: after a transport failure the name \<open>response\<close> is unbound there, and
  after a status error the body must still decode.  The request is appended to the
  log of requests handed to the client.
\<close>

definition client_call :: "env \<Rightarrow> request \<Rightarrow> world \<Rightarrow> world \<times> (exc + pyval)" where
  "client_call env rq w =
     (let w' = w\<lparr>http_log := http_log w @ [rq]\<rparr>
      in case remote env (http_log w) rq of
           Transport_failure t \<Rightarrow> (w', Inl (UnboundLocalError ''response''))
         | Client_raises e \<Rightarrow> (w', Inl e)
         | Reply (Some t) None \<Rightarrow> (w', Inl JSONDecodeError)
         | Reply (Some t) (Some v) \<Rightarrow> (w', Inr (PStr t))
         | Reply None None \<Rightarrow> (w', Inl JSONDecodeError)
         | Reply None (Some v) \<Rightarrow> (w', Inr v))"

definition bearer :: "string \<Rightarrow> string \<rightharpoonup> string" where
  "bearer tok = [''Authorization'' \<mapsto> ''Bearer '' @ tok]"

fun opt :: "('a \<Rightarrow> pyval) \<Rightarrow> 'a option \<Rightarrow> pyval" where
  "opt f None = PNone"
| "opt f (Some x) = f x"

text \<open>
  The dict comprehension \<open>{field: data[field] for field in updated_fields}\<close>: the
  fields are visited from left to right, and the first one that is not a key of
  \<open>data\<close> raises \<open>KeyError\<close>.
\<close>

fun comprehension :: "dict \<Rightarrow> dict \<Rightarrow> string list \<Rightarrow> exc + dict" where
  "comprehension data acc [] = Inr acc"
| "comprehension data acc (field # rest) =
     (case data field of
        None \<Rightarrow> Inl (KeyError field)
      | Some v \<Rightarrow> comprehension data (acc(field \<mapsto> v)) rest)"

text \<open>
  \<open>TaskCreate(...)\<close> followed by \<open>model_dump(mode="json", exclude_unset=True)\<close>: the four
  fields are all set by the caller, so all four are dumped; the deadline is validated
  by the field \<open>deadline: datetime | None\<close> and dumped as its text.  The parameter
  \<open>deadline\<close> of \<open>create_task\<close> and of \<open>update_task\<close> is annotated \<open>str | None\<close>, and the
  schema of either tool passes it a \<open>datetime\<close> or \<open>None\<close>: the parameter holds any value.
\<close>

definition TaskCreate ::
  "env \<Rightarrow> string \<Rightarrow> string \<Rightarrow> pyval \<Rightarrow> int option \<Rightarrow> exc + dict" where
  "TaskCreate env title description deadline collection_id =
     (let dumped = [''title'' \<mapsto> PStr title, ''description'' \<mapsto> PStr description,
                    ''collection_id'' \<mapsto> opt PInt collection_id]
      in case deadline of
           PNone \<Rightarrow> Inr (dumped(''deadline'' \<mapsto> PNone))
         | _ \<Rightarrow>
             (case as_datetime env deadline of
                None \<Rightarrow> Inl (ValidationError ''deadline'')
              | Some dumped_deadline \<Rightarrow>
                  Inr (dumped(''deadline'' \<mapsto> PStr dumped_deadline))))"

definition create_task ::
  "env \<Rightarrow> string \<Rightarrow> string \<Rightarrow> string \<Rightarrow> pyval \<Rightarrow> int option \<Rightarrow> world
     \<Rightarrow> world \<times> (exc + pyval)" where
  "create_task env title description tok deadline collection_id w =
     (case TaskCreate env title description deadline collection_id of
        Inl e \<Rightarrow> (w, Inl e)
      | Inr task \<Rightarrow>
          client_call env
            \<lparr>verb = POST, url = task_manager_base_url env @ ''tasks/create'',
             params = None, json = Some task, headers = bearer tok\<rparr> w)"

definition read_task :: "env \<Rightarrow> int \<Rightarrow> string \<Rightarrow> world \<Rightarrow> world \<times> (exc + pyval)" where
  "read_task env task_id tok w =
     client_call env
       \<lparr>verb = GET,
        url = task_manager_base_url env @ ''tasks/'' @ format_value env (PInt task_id),
        params = None, json = None, headers = bearer tok\<rparr> w"

definition task_list ::
  "env \<Rightarrow> int \<Rightarrow> int \<Rightarrow> string \<Rightarrow> string option \<Rightarrow> bool option \<Rightarrow> world
     \<Rightarrow> world \<times> (exc + pyval)" where
  "task_list env offset lim tok deadline completed w =
     client_call env
       \<lparr>verb = GET, url = task_manager_base_url env @ ''tasks/'',
        params = Some [''offset'' \<mapsto> PInt offset, ''limit'' \<mapsto> PInt lim,
                       ''deadline'' \<mapsto> opt PStr deadline,
                       ''completed'' \<mapsto> PBool (completed = Some True)],
        json = None, headers = bearer tok\<rparr> w"

text \<open>
  The dict \<open>data\<close> that \<open>update_task\<close> builds from its parameters; the deadline goes in
  as it was passed.
\<close>

definition task_data ::
  "string option \<Rightarrow> string option \<Rightarrow> bool \<Rightarrow> pyval \<Rightarrow> int option \<Rightarrow> dict" where
  "task_data title description completed deadline collection_id =
     [''title'' \<mapsto> opt PStr title,
      ''description'' \<mapsto> opt PStr description,
      ''completed'' \<mapsto> PBool completed,
      ''deadline'' \<mapsto> deadline,
      ''collection_id'' \<mapsto> opt PInt collection_id]"

definition update_task ::
  "env \<Rightarrow> int \<Rightarrow> string list \<Rightarrow> string \<Rightarrow> string option \<Rightarrow> string option \<Rightarrow> bool
     \<Rightarrow> pyval \<Rightarrow> int option \<Rightarrow> world \<Rightarrow> world \<times> (exc + pyval)" where
  "update_task env task_id updated_fields tok title description completed deadline
     collection_id w =
     (let data = task_data title description completed deadline collection_id
      in case comprehension data Map.empty updated_fields of
           Inl e \<Rightarrow> (w, Inl e)
         | Inr data_to_update \<Rightarrow>
             client_call env
               \<lparr>verb = PATCH,
                url = task_manager_base_url env @ ''tasks/''
                        @ format_value env (PInt task_id) @ ''/update'',
                params = None, json = Some data_to_update, headers = bearer tok\<rparr> w)"

definition delete_task :: "env \<Rightarrow> int \<Rightarrow> string \<Rightarrow> world \<Rightarrow> world \<times> (exc + pyval)" where
  "delete_task env task_id tok w =
     client_call env
       \<lparr>verb = DELETE,
        url = task_manager_base_url env @ ''tasks/''
                @ format_value env (PInt task_id) @ ''/delete'',
        params = None, json = None, headers = bearer tok\<rparr> w"

definition create_collection ::
  "env \<Rightarrow> string \<Rightarrow> string \<Rightarrow> int list option \<Rightarrow> world \<Rightarrow> world \<times> (exc + pyval)" where
  "create_collection env nm tok tasks w =
     client_call env
       \<lparr>verb = POST, url = task_manager_base_url env @ ''collections/create'',
        params = None,
        json = Some [''name'' \<mapsto> PStr nm,
                     ''tasks'' \<mapsto> opt (\<lambda>ts. PList (map PInt ts)) tasks],
        headers = bearer tok\<rparr> w"

definition read_collection :: "env \<Rightarrow> int \<Rightarrow> string \<Rightarrow> world \<Rightarrow> world \<times> (exc + pyval)" where
  "read_collection env collection_id tok w =
     client_call env
       \<lparr>verb = GET,
        url = task_manager_base_url env @ ''collections/''
                @ format_value env (PInt collection_id),
        params = None, json = None, headers = bearer tok\<rparr> w"

definition collection_list ::
  "env \<Rightarrow> int \<Rightarrow> int \<Rightarrow> string \<Rightarrow> world \<Rightarrow> world \<times> (exc + pyval)" where
  "collection_list env offset lim tok w =
     client_call env
       \<lparr>verb = GET, url = task_manager_base_url env @ ''collections/'',
        params = Some [''offset'' \<mapsto> PInt offset, ''limit'' \<mapsto> PInt lim],
        json = None, headers = bearer tok\<rparr> w"

text \<open>The dict \<open>data\<close> that \<open>update_collection\<close> builds.\<close>

definition collection_data :: "string option \<Rightarrow> dict" where
  "collection_data nm = [''name'' \<mapsto> opt PStr nm]"

definition update_collection ::
  "env \<Rightarrow> int \<Rightarrow> string list \<Rightarrow> string \<Rightarrow> string option \<Rightarrow> world
     \<Rightarrow> world \<times> (exc + pyval)" where
  "update_collection env collection_id updated_fields tok nm w =
     (let data = collection_data nm
      in case comprehension data Map.empty updated_fields of
           Inl e \<Rightarrow> (w, Inl e)
         | Inr data_to_update \<Rightarrow>
             client_call env
               \<lparr>verb = PATCH,
                url = task_manager_base_url env @ ''collections/''
                        @ format_value env (PInt collection_id) @ ''/update'',
                params = None, json = Some data_to_update, headers = bearer tok\<rparr> w)"

definition delete_collection ::
  "env \<Rightarrow> int \<Rightarrow> string \<Rightarrow> world \<Rightarrow> world \<times> (exc + pyval)" where
  "delete_collection env collection_id tok w =
     client_call env
       \<lparr>verb = DELETE,
        url = task_manager_base_url env @ ''collections/''
                @ format_value env (PInt collection_id) @ ''/delete'',
        params = None, json = None, headers = bearer tok\<rparr> w"

datatype tool =
    T_create_task | T_read_task | T_task_list | T_update_task | T_delete_task
  | T_create_collection | T_read_collection | T_collection_list
  | T_update_collection | T_delete_collection

definition funcs :: "string \<rightharpoonup> tool" where
  "funcs =
     [''create_task'' \<mapsto> T_create_task,
      ''read_task'' \<mapsto> T_read_task,
      ''task_list'' \<mapsto> T_task_list,
      ''update_task'' \<mapsto> T_update_task,
      ''delete_task'' \<mapsto> T_delete_task,
      ''create_collection'' \<mapsto> T_create_collection,
      ''read_collection'' \<mapsto> T_read_collection,
      ''collection_list'' \<mapsto> T_collection_list,
      ''update_collection'' \<mapsto> T_update_collection,
      ''delete_collection'' \<mapsto> T_delete_collection]"

definition get_function_by_name :: "string \<Rightarrow> exc + tool" where
  "get_function_by_name nm =
     (case funcs nm of
        None \<Rightarrow> Inl (NotImplementedError (''Function '' @ nm @ '' is not implemented''))
      | Some func \<Rightarrow> Inr func)"

text \<open>
  The list \<open>tools\<close> of \<open>repositories/gemini_repo.py\<close>, bound to the model as its
  catalog, and the name under which each tool is advertised (the name of its function).
\<close>

definition tools :: "tool list" where
  "tools =
     [T_create_task, T_read_task, T_task_list, T_update_task, T_delete_task,
      T_create_collection, T_read_collection, T_collection_list,
      T_update_collection, T_delete_collection]"

fun tool_name :: "tool \<Rightarrow> string" where
  "tool_name T_create_task = ''create_task''"
| "tool_name T_read_task = ''read_task''"
| "tool_name T_task_list = ''task_list''"
| "tool_name T_update_task = ''update_task''"
| "tool_name T_delete_task = ''delete_task''"
| "tool_name T_create_collection = ''create_collection''"
| "tool_name T_read_collection = ''read_collection''"
| "tool_name T_collection_list = ''collection_list''"
| "tool_name T_update_collection = ''update_collection''"
| "tool_name T_delete_collection = ''delete_collection''"

subsection \<open>Calling a tool with a dict of arguments\<close>

text \<open>
  \<open>function_to_call.ainvoke(tool_args)\<close> validates the dict against the tool's argument
  schema and calls the function with the validated entries as keyword arguments; a
  parameter that has a default takes it when its key is absent, and entries under other
  keys are ignored.  The schema is the model named in \<open>@tool(args_schema=...)\<close>, or the
  one the decorator derives from the signature of the function.  A value that its field
  rejects and a required entry that is missing raise a \<open>ValidationError\<close>.
\<close>

definition req_int :: "env \<Rightarrow> dict \<Rightarrow> string \<Rightarrow> exc + int" where
  "req_int env d k =
     (case d k of
        None \<Rightarrow> Inl (ValidationError k)
      | Some v \<Rightarrow>
          (case as_int env v of None \<Rightarrow> Inl (ValidationError k) | Some i \<Rightarrow> Inr i))"

definition req_str :: "env \<Rightarrow> dict \<Rightarrow> string \<Rightarrow> exc + string" where
  "req_str env d k =
     (case d k of
        None \<Rightarrow> Inl (ValidationError k)
      | Some v \<Rightarrow>
          (case as_str env v of None \<Rightarrow> Inl (ValidationError k) | Some t \<Rightarrow> Inr t))"

definition opt_int :: "env \<Rightarrow> dict \<Rightarrow> string \<Rightarrow> exc + int option" where
  "opt_int env d k =
     (case d k of
        None \<Rightarrow> Inr None
      | Some PNone \<Rightarrow> Inr None
      | Some v \<Rightarrow>
          (case as_int env v of None \<Rightarrow> Inl (ValidationError k) | Some i \<Rightarrow> Inr (Some i)))"

definition opt_str :: "env \<Rightarrow> dict \<Rightarrow> string \<Rightarrow> exc + string option" where
  "opt_str env d k =
     (case d k of
        None \<Rightarrow> Inr None
      | Some PNone \<Rightarrow> Inr None
      | Some v \<Rightarrow>
          (case as_str env v of None \<Rightarrow> Inl (ValidationError k) | Some t \<Rightarrow> Inr (Some t)))"

text \<open>
  \<open>deadline: datetime | None = None\<close> of \<open>TaskCreateAuth\<close> and \<open>TaskUpdateAuth\<close>: the
  function is handed the \<open>datetime\<close> object.
\<close>

definition opt_datetime :: "env \<Rightarrow> dict \<Rightarrow> string \<Rightarrow> exc + pyval" where
  "opt_datetime env d k =
     (case d k of
        None \<Rightarrow> Inr PNone
      | Some PNone \<Rightarrow> Inr PNone
      | Some v \<Rightarrow>
          (case as_datetime env v of
             None \<Rightarrow> Inl (ValidationError k)
           | Some t \<Rightarrow> Inr (PDatetime t)))"

text \<open>\<open>completed: bool | None = False\<close> of \<open>task_list\<close>.\<close>

definition opt_bool_default_False :: "env \<Rightarrow> dict \<Rightarrow> string \<Rightarrow> exc + bool option" where
  "opt_bool_default_False env d k =
     (case d k of
        None \<Rightarrow> Inr (Some False)
      | Some PNone \<Rightarrow> Inr None
      | Some v \<Rightarrow>
          (case as_bool env v of None \<Rightarrow> Inl (ValidationError k) | Some b \<Rightarrow> Inr (Some b)))"

text \<open>\<open>completed: bool = False\<close> of \<open>update_task\<close>.\<close>

definition bool_default_False :: "env \<Rightarrow> dict \<Rightarrow> string \<Rightarrow> exc + bool" where
  "bool_default_False env d k =
     (case d k of
        None \<Rightarrow> Inr False
      | Some v \<Rightarrow>
          (case as_bool env v of None \<Rightarrow> Inl (ValidationError k) | Some b \<Rightarrow> Inr b))"

fun strs :: "env \<Rightarrow> pyval list \<Rightarrow> string list option" where
  "strs env [] = Some []"
| "strs env (v # vs) =
     (case as_str env v of None \<Rightarrow> None | Some t \<Rightarrow> map_option ((#) t) (strs env vs))"

fun ints :: "env \<Rightarrow> pyval list \<Rightarrow> int list option" where
  "ints env [] = Some []"
| "ints env (v # vs) =
     (case as_int env v of None \<Rightarrow> None | Some i \<Rightarrow> map_option ((#) i) (ints env vs))"

definition req_str_list :: "env \<Rightarrow> dict \<Rightarrow> string \<Rightarrow> exc + string list" where
  "req_str_list env d k =
     (case d k of
        None \<Rightarrow> Inl (ValidationError k)
      | Some v \<Rightarrow>
          (case as_list env v of
             None \<Rightarrow> Inl (ValidationError k)
           | Some vs \<Rightarrow>
               (case strs env vs of None \<Rightarrow> Inl (ValidationError k) | Some ts \<Rightarrow> Inr ts)))"

definition opt_int_list :: "env \<Rightarrow> dict \<Rightarrow> string \<Rightarrow> exc + int list option" where
  "opt_int_list env d k =
     (case d k of
        None \<Rightarrow> Inr None
      | Some PNone \<Rightarrow> Inr None
      | Some v \<Rightarrow>
          (case as_list env v of
             None \<Rightarrow> Inl (ValidationError k)
           | Some vs \<Rightarrow>
               (case ints env vs of
                  None \<Rightarrow> Inl (ValidationError k)
                | Some js \<Rightarrow> Inr (Some js))))"

text \<open>Supplying one more argument to a function whose earlier arguments are bound.\<close>

definition arg :: "exc + ('a \<Rightarrow> 'b) \<Rightarrow> exc + 'a \<Rightarrow> exc + 'b" where
  "arg f x =
     (case f of
        Inl e \<Rightarrow> Inl e
      | Inr g \<Rightarrow> (case x of Inl e \<Rightarrow> Inl e | Inr v \<Rightarrow> Inr (g v)))"

fun bound_call :: "env \<Rightarrow> tool \<Rightarrow> dict \<Rightarrow> exc + (world \<Rightarrow> world \<times> (exc + pyval))" where
  "bound_call env T_create_task a =
     arg (arg (arg (arg (arg (Inr (create_task env))
       (req_str env a ''title'')) (req_str env a ''description'')) (req_str env a ''token''))
       (opt_datetime env a ''deadline'')) (opt_int env a ''collection_id'')"
| "bound_call env T_read_task a =
     arg (arg (Inr (read_task env)) (req_int env a ''task_id'')) (req_str env a ''token'')"
| "bound_call env T_task_list a =
     arg (arg (arg (arg (arg (Inr (task_list env))
       (req_int env a ''offset'')) (req_int env a ''limit'')) (req_str env a ''token''))
       (opt_str env a ''deadline'')) (opt_bool_default_False env a ''completed'')"
| "bound_call env T_update_task a =
     arg (arg (arg (arg (arg (arg (arg (arg (Inr (update_task env))
       (req_int env a ''task_id'')) (req_str_list env a ''updated_fields''))
       (req_str env a ''token'')) (opt_str env a ''title'')) (opt_str env a ''description''))
       (bool_default_False env a ''completed'')) (opt_datetime env a ''deadline''))
       (opt_int env a ''collection_id'')"
| "bound_call env T_delete_task a =
     arg (arg (Inr (delete_task env)) (req_int env a ''task_id'')) (req_str env a ''token'')"
| "bound_call env T_create_collection a =
     arg (arg (arg (Inr (create_collection env))
       (req_str env a ''name'')) (req_str env a ''token'')) (opt_int_list env a ''tasks'')"
| "bound_call env T_read_collection a =
     arg (arg (Inr (read_collection env)) (req_int env a ''collection_id''))
       (req_str env a ''token'')"
| "bound_call env T_collection_list a =
     arg (arg (arg (Inr (collection_list env))
       (req_int env a ''offset'')) (req_int env a ''limit'')) (req_str env a ''token'')"
| "bound_call env T_update_collection a =
     arg (arg (arg (arg (Inr (update_collection env))
       (req_int env a ''collection_id'')) (req_str_list env a ''updated_fields''))
       (req_str env a ''token'')) (opt_str env a ''name'')"
| "bound_call env T_delete_collection a =
     arg (arg (Inr (delete_collection env)) (req_int env a ''collection_id''))
       (req_str env a ''token'')"

definition ainvoke :: "env \<Rightarrow> tool \<Rightarrow> dict \<Rightarrow> world \<Rightarrow> world \<times> (exc + pyval)" where
  "ainvoke env func tool_args w =
     (case bound_call env func tool_args of
        Inl e \<Rightarrow> (w, Inl e)
      | Inr call \<Rightarrow> call w)"

section \<open>services/chat_bot_service.py\<close>

record chat_state =
  messages :: "message list"
  iterations :: int
  response :: "string option"
  token :: string

text \<open>
  A node returns the entries of the state it changes.  The graph engine folds them
  into the state: \<open>messages\<close> through the reducer \<open>add_messages\<close>, which appends,
  \<open>iterations\<close> by assignment.

  Two nodes also write into the state they are given.  \<open>call_task_manager_api\<close> assigns
  the token into the \<open>args\<close> dict of each tool call of the last message
  (\<open>token_written\<close> below).  \<open>limit_llm_request_exceeded\<close> appends \<open>limit_prompt\<close> to the
  list of messages and returns the same message first in its update; the reducer merges
  messages by their id, so the history holds the prompt once: the new list is the one the
  node was given, then the two messages of the update.
\<close>

record update =
  new_messages :: "message list"
  new_iterations :: "int option"

definition add_messages :: "message list \<Rightarrow> message list \<Rightarrow> message list" where
  "add_messages left right = left @ right"

definition apply_update :: "chat_state \<Rightarrow> update \<Rightarrow> chat_state" where
  "apply_update s u =
     s\<lparr>messages := add_messages (messages s) (new_messages u),
       iterations := (case new_iterations u of None \<Rightarrow> iterations s | Some i \<Rightarrow> i)\<rparr>"

definition call_llm_with_tools ::
  "env \<Rightarrow> chat_state \<Rightarrow> world \<Rightarrow> world \<times> (exc + update)" where
  "call_llm_with_tools env s w =
     (case llm_generate env (messages s) True w of
        (w', Inl e) \<Rightarrow> (w', Inl e)
      | (w', Inr None) \<Rightarrow> (w', Inl (HTTPException 500 ''Error while calling LLM''))
      | (w', Inr (Some r)) \<Rightarrow>
          (w', Inr \<lparr>new_messages = [r], new_iterations = Some (iterations s - 1)\<rparr>))"

text \<open>
  The \<open>for\<close> loop of \<open>call_task_manager_api\<close>.  \<open>get_function_by_name\<close> is called
  outside the \<open>try\<close>; \<open>ainvoke\<close> inside it, where \<open>except Exception\<close> replaces the
  result by \<open>str(e)\<close>.  \<open>tool_args\<close> is the \<open>args\<close> dict of the tool call itself, with the
  token assigned under the key \<open>token\<close>.
\<close>

fun tool_loop ::
  "env \<Rightarrow> string \<Rightarrow> tool_call list \<Rightarrow> message list \<Rightarrow> world
     \<Rightarrow> world \<times> (exc + message list)" where
  "tool_loop env tok [] tool_messages w = (w, Inr tool_messages)"
| "tool_loop env tok (tc # tcs) tool_messages w =
     (case get_function_by_name (tc_name tc) of
        Inl e \<Rightarrow> (w, Inl e)
      | Inr function_to_call \<Rightarrow>
          (let tool_args = (tc_args tc)(''token'' \<mapsto> PStr tok);
               (w', r) = ainvoke env function_to_call tool_args w;
               result = (case r of Inr v \<Rightarrow> v | Inl e \<Rightarrow> PStr (exc_str env e))
           in tool_loop env tok tcs
                (tool_messages @
                   [ToolMessage (''Function result is: '' @ format_value env result)
                      (tc_id tc) (tc_name tc)])
                w'))"

definition call_task_manager_api ::
  "env \<Rightarrow> chat_state \<Rightarrow> world \<Rightarrow> world \<times> (exc + update)" where
  "call_task_manager_api env s w =
     (if messages s = [] then (w, Inl IndexError)
      else case tool_calls (last (messages s)) of
             None \<Rightarrow> (w, Inl (AttributeError ''tool_calls''))
           | Some tcs \<Rightarrow>
               (case tool_loop env (token s) tcs [] w of
                  (w', Inl e) \<Rightarrow> (w', Inl e)
                | (w', Inr tool_messages) \<Rightarrow>
                    (w', Inr \<lparr>new_messages = tool_messages, new_iterations = None\<rparr>)))"

text \<open>
  What the loop has written when it completes: \<open>tool_args["token"] = state["token"]\<close>
  has changed the \<open>args\<close> dict of every tool call of the last message, in the state.
\<close>

definition write_token :: "string \<Rightarrow> tool_call \<Rightarrow> tool_call" where
  "write_token tok tc = tc\<lparr>tc_args := (tc_args tc)(''token'' \<mapsto> PStr tok)\<rparr>"

definition token_written :: "chat_state \<Rightarrow> chat_state" where
  "token_written s =
     (if messages s = [] then s
      else case last (messages s) of
             AIMessage c tcs \<Rightarrow>
               s\<lparr>messages := butlast (messages s)
                                 @ [AIMessage c (map (write_token (token s)) tcs)]\<rparr>
           | _ \<Rightarrow> s)"

definition limit_prompt :: message where
  "limit_prompt = HumanMessage
     (''The chatbot has reached its maximum number of LLM API calls for this single user message. ''
      @ ''Please summarize the results obtained from previous API calls and inform the user that ''
      @ ''processing has stopped due to this limitation. Let them know they can continue by ''
      @ ''sending a new message with additional instructions, rather than this being a ''
      @ ''permanent limit on their account. Use a clear and friendly tone to explain this ''
      @ ''technical limitation.'' @ [CHR 0x0A] @ ''            '')"

definition limit_llm_request_exceeded ::
  "env \<Rightarrow> chat_state \<Rightarrow> world \<Rightarrow> world \<times> (exc + update)" where
  "limit_llm_request_exceeded env s w =
     (case llm_generate env (messages s @ [limit_prompt]) True w of
        (w', Inl e) \<Rightarrow> (w', Inl e)
      | (w', Inr None) \<Rightarrow> (w', Inl (HTTPException 500 ''Error while calling LLM''))
      | (w', Inr (Some r)) \<Rightarrow>
          (w', Inr \<lparr>new_messages = [limit_prompt, r], new_iterations = None\<rparr>))"

definition resolve_model_response :: "chat_state \<Rightarrow> exc + string" where
  "resolve_model_response s =
     (if messages s = [] then Inl IndexError
      else if \<not> (case tool_calls (last (messages s)) of
                    None \<Rightarrow> False
                  | Some tcs \<Rightarrow> length tcs > 0)
      then Inr ''end''
      else Inr ''call_api'')"

definition check_gemini_limit_request :: "chat_state \<Rightarrow> string" where
  "check_gemini_limit_request s =
     (if iterations s \<le> 0 then ''limit_llm_request'' else ''llm'')"

subsection \<open>The graph of \<open>get_graph\<close>\<close>

text \<open>
  Three nodes, the edge from \<open>START\<close> to \<open>llm\<close>, the conditional edges after \<open>llm\<close>
  and after \<open>call_api\<close> with their path maps, and the edge from \<open>limit_llm_request\<close>
  to \<open>END\<close>.  The engine that executes the graph is the library's; here it runs a node,
  folds the update into the state and follows the edge, with no bound of its own on the
  number of steps.
\<close>

definition run_node :: "env \<Rightarrow> node \<Rightarrow> chat_state \<Rightarrow> world \<Rightarrow> world \<times> (exc + update)" where
  "run_node env n s w =
     (case n of
        Llm \<Rightarrow> call_llm_with_tools env s w
      | Call_api \<Rightarrow> call_task_manager_api env s w
      | Limit_llm_request \<Rightarrow> limit_llm_request_exceeded env s w
      | _ \<Rightarrow> (w, Inr \<lparr>new_messages = [], new_iterations = None\<rparr>))"

definition path_map_llm :: "string \<rightharpoonup> node" where
  "path_map_llm = [''call_api'' \<mapsto> Call_api, ''end'' \<mapsto> END]"

definition path_map_call_api :: "string \<rightharpoonup> node" where
  "path_map_call_api = [''llm'' \<mapsto> Llm, ''limit_llm_request'' \<mapsto> Limit_llm_request]"

definition follow :: "(string \<rightharpoonup> node) \<Rightarrow> string \<Rightarrow> exc + node" where
  "follow path_map route =
     (case path_map route of None \<Rightarrow> Inl (KeyError route) | Some n \<Rightarrow> Inr n)"

definition next_node :: "node \<Rightarrow> chat_state \<Rightarrow> exc + node" where
  "next_node n s =
     (case n of
        START \<Rightarrow> Inr Llm
      | Llm \<Rightarrow>
          (case resolve_model_response s of
             Inl e \<Rightarrow> Inl e
           | Inr route \<Rightarrow> follow path_map_llm route)
      | Call_api \<Rightarrow> follow path_map_call_api (check_gemini_limit_request s)
      | Limit_llm_request \<Rightarrow> Inr END
      | END \<Rightarrow> Inr END)"

text \<open>The state a node leaves behind when it returns.\<close>

fun left_by :: "node \<Rightarrow> chat_state \<Rightarrow> chat_state" where
  "left_by Call_api s = token_written s"
| "left_by n s = s"

text \<open>
  One step of the engine: run the node, fold its update into the state the node left,
  and choose the next node from the new state.
\<close>

definition step ::
  "env \<Rightarrow> node \<Rightarrow> chat_state \<Rightarrow> world \<Rightarrow> world \<times> (exc + node \<times> chat_state)" where
  "step env n s w =
     (case run_node env n s (w\<lparr>running := n\<rparr>) of
        (w', Inl e) \<Rightarrow> (w', Inl e)
      | (w', Inr u) \<Rightarrow>
          (let s' = apply_update (left_by n s) u
           in case next_node n s' of
                Inl e \<Rightarrow> (w', Inl e)
              | Inr n' \<Rightarrow> (w', Inr (n', s'))))"

text \<open>What is left to do from a node: the measure of the run's termination.\<close>

fun potential :: "node \<Rightarrow> chat_state \<Rightarrow> nat" where
  "potential END s = 0"
| "potential Limit_llm_request s = 1"
| "potential Call_api s = 2 * nat (iterations s) + 2"
| "potential Llm s = 2 * nat (iterations s - 1) + 3"
| "potential START s = 2 * nat (iterations s - 1) + 4"

function run ::
  "env \<Rightarrow> node \<Rightarrow> chat_state \<Rightarrow> world \<Rightarrow> world \<times> (exc + chat_state)" where
  "run env n s w =
     (if n = END then (w, Inr s)
      else case step env n s w of
             (w', Inl e) \<Rightarrow> (w', Inl e)
           | (w', Inr (n', s')) \<Rightarrow> run env n' s' w')"
  by pat_completeness auto
termination
proof (relation "measure (\<lambda>(env, n, s, w). potential n s)")
  show "wf (measure (\<lambda>(env, n, s, w). potential n s))"
    by simp
next
  fix env :: env and n :: node and s s' :: chat_state and w w' :: world
    and r :: "exc + node \<times> chat_state" and p :: "node \<times> chat_state" and n' :: node
  assume "n \<noteq> END" and st: "(w', r) = step env n s w" and "r = Inr p" and "(n', s') = p"
  then have st2: "step env n s w = (w', Inr (n', s'))"
    by simp
  have "potential n' s' < potential n s"
  proof (cases n)
    case START
    with st2 show ?thesis
      by (auto simp: step_def run_node_def next_node_def apply_update_def Let_def)
  next
    case Llm
    with st2 show ?thesis
      by (auto simp: step_def run_node_def next_node_def apply_update_def Let_def
            call_llm_with_tools_def follow_def path_map_llm_def resolve_model_response_def
          split: prod.splits sum.splits option.splits if_splits)
  next
    case Call_api
    with st2 show ?thesis
      by (auto simp: step_def run_node_def next_node_def apply_update_def Let_def
            call_task_manager_api_def follow_def path_map_call_api_def
            check_gemini_limit_request_def token_written_def
          split: prod.splits sum.splits option.splits if_splits message.splits)
  next
    case Limit_llm_request
    with st2 show ?thesis
      by (auto simp: step_def run_node_def next_node_def apply_update_def Let_def
          split: prod.splits sum.splits)
  next
    case END
    with \<open>n \<noteq> END\<close> show ?thesis by simp
  qed
  then show "((env, n', s', w'), (env, n, s, w)) \<in> measure (\<lambda>(env, n, s, w). potential n s)"
    by simp
qed

text \<open>
  The endpoint \<open>chat\<close> of \<open>routing/chat_bot_router.py\<close>: the system prompt and the
  user's message, the budget of \<open>config.py\<close>, the caller's token; the answer is the
  content of the last message.
\<close>

definition chat ::
  "env \<Rightarrow> string \<Rightarrow> string \<Rightarrow> string \<Rightarrow> world \<Rightarrow> world \<times> (exc + string)" where
  "chat env system_prompt user_message tok w =
     (case run env START
             \<lparr>messages = [SystemMessage system_prompt, HumanMessage user_message],
              iterations = limit_gemini_request_per_message env,
              response = None, token = tok\<rparr> w of
        (w', Inl e) \<Rightarrow> (w', Inl e)
      | (w', Inr s) \<Rightarrow>
          (if messages s = [] then (w', Inl IndexError)
           else (w', Inr (content (last (messages s))))))"

section \<open>Measures and scenarios\<close>

text \<open>How many more times the node \<open>llm\<close> can run, seen from a node.\<close>

fun turns_left :: "node \<Rightarrow> chat_state \<Rightarrow> nat" where
  "turns_left START s = max 1 (nat (iterations s))"
| "turns_left Llm s = max 1 (nat (iterations s))"
| "turns_left Call_api s = nat (iterations s)"
| "turns_left Limit_llm_request s = 0"
| "turns_left END s = 0"

text \<open>Concrete inputs on which the theorems below are instantiated.\<close>

definition w0 :: world where
  "w0 = \<lparr>running = START, llm_log = [], http_log = []\<rparr>"

definition state0 :: "int \<Rightarrow> chat_state" where
  "state0 n =
     \<lparr>messages = [SystemMessage ''system'', HumanMessage ''user''],
      iterations = n, response = None, token = ''secret''\<rparr>"

text \<open>A provider that answers the \<open>i\<close>-th invocation with the \<open>i\<close>-th outcome of a list.\<close>

definition scripted ::
  "provider_outcome list \<Rightarrow> llm_entry list \<Rightarrow> bool \<Rightarrow> message list \<Rightarrow> provider_outcome" where
  "scripted outcomes log with_tools msgs =
     (if length log < length outcomes then outcomes ! length log else Responds ''done'' [])"

fun demo_exc_str :: "exc \<Rightarrow> string" where
  "demo_exc_str (KeyError k) = k"
| "demo_exc_str (NotImplementedError t) = t"
| "demo_exc_str (UnboundLocalError v) = v"
| "demo_exc_str e = ''error''"

definition scenario :: "provider_outcome list \<Rightarrow> http_outcome \<Rightarrow> env" where
  "scenario outcomes reply =
     \<lparr>provider = scripted outcomes,
      remote = (\<lambda>log rq. reply),
      py_str = (\<lambda>v. ''value''),
      exc_str = demo_exc_str,
      lax_int = (\<lambda>v. None),
      lax_str = (\<lambda>v. None),
      lax_bool = (\<lambda>v. None),
      lax_list = (\<lambda>v. None),
      lax_datetime = (\<lambda>v. None),
      task_manager_base_url = ''http://api/'',
      limit_gemini_request_per_message = 1\<rparr>"

definition read_task_7 :: tool_call where
  "read_task_7 =
     \<lparr>tc_name = ''read_task'', tc_args = [''task_id'' \<mapsto> PInt 7], tc_id = ''call-1''\<rparr>"

text \<open>
  One model answer that asks for \<open>read_task\<close>, then plain answers; the state right after
  the model has asked for some tool calls; providers that fail; a call to a tool that
  does not exist.
\<close>

definition env_one_tool :: env where
  "env_one_tool = scenario [Responds ''go'' [read_task_7]] (Reply None (Some PNone))"

definition asked :: "int \<Rightarrow> tool_call list \<Rightarrow> chat_state" where
  "asked n tcs = (state0 n)\<lparr>messages := messages (state0 n) @ [AIMessage ''go'' tcs]\<rparr>"

definition env_timeout :: env where
  "env_timeout = scenario [Raises (OtherException ''timeout'')] (Reply None (Some PNone))"

text \<open>
  A provider whose first call raises an exception that \<open>llm_generate\<close> catches and whose
  second call raises one that it does not; a world in which the model has been invoked
  once.
\<close>

definition env_fails :: env where
  "env_fails =
     scenario [Raises (ChatGoogleGenerativeAIError ''quota''), Raises (OtherException ''timeout'')]
       (Reply None (Some PNone))"

definition invoked_once :: world where
  "invoked_once = w0\<lparr>llm_log := [(Llm, True, [])]\<rparr>"

definition foo_call :: tool_call where
  "foo_call = \<lparr>tc_name = ''foo'', tc_args = Map.empty, tc_id = ''call-2''\<rparr>"

definition env_down :: env where
  "env_down = scenario [Responds ''go'' [read_task_7]] (Transport_failure ''connection refused'')"

text \<open>A task manager that answers every request but the second, which does not arrive.\<close>

definition env_flaky :: env where
  "env_flaky =
     (scenario [] (Reply None (Some PNone)))
       \<lparr>remote := (\<lambda>log rq. if length log = 1 then Transport_failure ''timeout''
                             else Reply None (Some PNone))\<rparr>"

definition list_call :: tool_call where
  "list_call =
     \<lparr>tc_name = ''collection_list'',
      tc_args = [''offset'' \<mapsto> PInt 0, ''limit'' \<mapsto> PInt 10], tc_id = ''call-3''\<rparr>"



definition forged_read_task_7 :: tool_call where
  "forged_read_task_7 =
     \<lparr>tc_name = ''read_task'',
      tc_args = [''task_id'' \<mapsto> PInt 7, ''token'' \<mapsto> PStr ''forged''],
      tc_id = ''call-1''\<rparr>"

section \<open>Properties\<close>

declare run.simps [simp del]

subsection \<open>What each function does to the world\<close>

lemma llm_generate_world:
  "llm_generate env msgs wt w = (w', r) \<Longrightarrow>
     w' = w\<lparr>llm_log := llm_log w @ [(running w, wt, msgs)]\<rparr>"
  by (auto simp: llm_generate_def Let_def split: provider_outcome.splits if_splits)

lemma client_call_world:
  "client_call env rq w = (w', r) \<Longrightarrow> w' = w\<lparr>http_log := http_log w @ [rq]\<rparr>"
  by (auto simp: client_call_def Let_def split: http_outcome.splits option.splits)

lemma client_call_logs:
  "client_call env rq w = (w', r) \<Longrightarrow> llm_log w' = llm_log w \<and> running w' = running w"
  by (auto dest: client_call_world)

lemma arg_Inr: "arg f x = Inr c \<longleftrightarrow> (\<exists>g v. f = Inr g \<and> x = Inr v \<and> c = g v)"
  by (auto simp: arg_def split: sum.splits)

lemma ainvoke_logs:
  "ainvoke env f a w = (w', r) \<Longrightarrow> llm_log w' = llm_log w \<and> running w' = running w"
  by (cases f)
     (auto simp: ainvoke_def arg_Inr create_task_def read_task_def task_list_def
        update_task_def delete_task_def create_collection_def read_collection_def
        collection_list_def update_collection_def delete_collection_def Let_def
      split: sum.splits dest: client_call_logs)

lemma tool_loop_logs:
  "tool_loop env tok tcs acc w = (w', r) \<Longrightarrow> llm_log w' = llm_log w \<and> running w' = running w"
proof (induction tcs arbitrary: acc w)
  case Nil
  then show ?case by simp
next
  case (Cons tc tcs)
  show ?case
  proof (cases "get_function_by_name (tc_name tc)")
    case (Inl e)
    with Cons.prems show ?thesis by simp
  next
    case (Inr f)
    obtain w1 r1 where a: "ainvoke env f ((tc_args tc)(''token'' \<mapsto> PStr tok)) w = (w1, r1)"
      by (cases "ainvoke env f ((tc_args tc)(''token'' \<mapsto> PStr tok)) w")
    from Cons.prems Inr a obtain acc' where "tool_loop env tok tcs acc' w1 = (w', r)"
      by (auto simp: Let_def)
    from Cons.IH [OF this] ainvoke_logs [OF a] show ?thesis by simp
  qed
qed


subsection \<open>Steps of the graph\<close>

lemma token_written_fields [simp]:
  "iterations (token_written s) = iterations s"
  "token (token_written s) = token s"
  "response (token_written s) = response s"
  "length (messages (token_written s)) = length (messages s)"
  "butlast (messages (token_written s)) = butlast (messages s)"
  by (auto simp: token_written_def split: message.splits)

lemma left_by_fields [simp]:
  "iterations (left_by n s) = iterations s"
  "token (left_by n s) = token s"
  "length (messages (left_by n s)) = length (messages s)"
  by (cases n; simp)+

lemma token_written_messages:
  assumes "messages s \<noteq> []" and "last (messages s) = AIMessage c tcs"
  shows "messages (token_written s)
           = butlast (messages s) @ [AIMessage c (map (write_token (token s)) tcs)]"
  using assms by (simp add: token_written_def)

lemma step_START: "step env START s w = (w\<lparr>running := START\<rparr>, Inr (Llm, s))"
  by (simp add: step_def run_node_def next_node_def apply_update_def add_messages_def)

lemma step_log:
  assumes "step env n s w = (w', r)"
  shows "\<exists>es. llm_log w' = llm_log w @ es \<and> length es \<le> 1 \<and> (\<forall>e\<in>set es. fst e = n)
           \<and> (es \<noteq> [] \<longrightarrow> n = Llm \<or> n = Limit_llm_request)
           \<and> (n = Llm \<and> (\<exists>p. r = Inr p) \<longrightarrow> es \<noteq> [])"
proof (cases n)
  case START
  with assms show ?thesis by (auto simp: step_START)
next
  case Llm
  obtain w1 r1 where g: "llm_generate env (messages s) True (w\<lparr>running := Llm\<rparr>) = (w1, r1)"
    by (cases "llm_generate env (messages s) True (w\<lparr>running := Llm\<rparr>)")
  from llm_generate_world [OF g] have w1: "llm_log w1 = llm_log w @ [(Llm, True, messages s)]"
    by simp
  from assms Llm g have "w' = w1"
    by (auto simp: step_def run_node_def call_llm_with_tools_def Let_def
        split: sum.splits option.splits)
  with w1 Llm show ?thesis by simp
next
  case Call_api
  obtain w1 r1 where c: "call_task_manager_api env s (w\<lparr>running := Call_api\<rparr>) = (w1, r1)"
    by (cases "call_task_manager_api env s (w\<lparr>running := Call_api\<rparr>)")
  then have "llm_log w1 = llm_log w"
    by (auto simp: call_task_manager_api_def
        split: if_splits option.splits prod.splits sum.splits dest: tool_loop_logs)
  moreover from assms Call_api c have "w' = w1"
    by (auto simp: step_def run_node_def Let_def split: sum.splits)
  ultimately show ?thesis using Call_api by simp
next
  case Limit_llm_request
  obtain w1 r1 where g: "llm_generate env (messages s @ [limit_prompt]) True
      (w\<lparr>running := Limit_llm_request\<rparr>) = (w1, r1)"
    by (cases "llm_generate env (messages s @ [limit_prompt]) True
      (w\<lparr>running := Limit_llm_request\<rparr>)")
  from llm_generate_world [OF g]
  have w1: "llm_log w1 = llm_log w @ [(Limit_llm_request, True, messages s @ [limit_prompt])]"
    by simp
  from assms Limit_llm_request g have "w' = w1"
    by (auto simp: step_def run_node_def limit_llm_request_exceeded_def Let_def next_node_def
        split: sum.splits option.splits)
  with w1 Limit_llm_request show ?thesis by simp
next
  case END
  with assms show ?thesis
    by (auto simp: step_def run_node_def next_node_def apply_update_def add_messages_def)
qed

lemma step_iterations:
  assumes "step env n s w = (w', Inr (n', s'))"
  shows "iterations s' = (if n = Llm then iterations s - 1 else iterations s)"
  using assms
  by (cases n)
     (auto simp: step_def run_node_def apply_update_def Let_def call_llm_with_tools_def
        call_task_manager_api_def limit_llm_request_exceeded_def
      split: prod.splits sum.splits option.splits if_splits)

lemma step_next:
  assumes "step env n s w = (w', Inr (n', s'))"
  shows "(n = START \<longrightarrow> n' = Llm)
       \<and> (n = Llm \<longrightarrow> n' = Call_api \<or> n' = END)
       \<and> (n = Call_api \<longrightarrow> n' = (if iterations s' \<le> 0 then Limit_llm_request else Llm))
       \<and> (n = Limit_llm_request \<longrightarrow> n' = END)
       \<and> (n = END \<longrightarrow> n' = END)"
  using assms
  by (cases n)
     (auto simp: step_def next_node_def Let_def follow_def path_map_llm_def
        path_map_call_api_def check_gemini_limit_request_def resolve_model_response_def
      split: prod.splits sum.splits option.splits if_splits)

lemma step_turns_left:
  assumes "step env n s w = (w', Inr (n', s'))"
  shows "turns_left n' s' + (if n = Llm then 1 else 0) \<le> turns_left n s"
  using step_next [OF assms] step_iterations [OF assms]
  by (cases n) (auto split: if_splits)

subsection \<open>Runs, and the bound on model invocations\<close>

lemma run_END: "run env END s w = (w, Inr s)"
  by (simp add: run.simps)

lemma run_unfold:
  assumes "n \<noteq> END"
  shows "run env n s w =
     (case step env n s w of
        (w', Inl e) \<Rightarrow> (w', Inl e)
      | (w', Inr (n', s')) \<Rightarrow> run env n' s' w')"
proof -
  have "run env n s w =
     (if n = END then (w, Inr s)
      else case step env n s w of
             (w', Inl e) \<Rightarrow> (w', Inl e)
           | (w', Inr (n', s')) \<Rightarrow> run env n' s' w')"
    by (rule run.simps)
  with assms show ?thesis by (simp only: if_False)
qed

lemma run_log:
  "\<exists>new. llm_log (fst (run env n s w)) = llm_log w @ new
         \<and> length new \<le> turns_left n s + 1
         \<and> (\<forall>k<length new. turns_left n s \<le> k \<longrightarrow> fst (new ! k) = Limit_llm_request)"
proof (induction env n s w rule: run.induct)
  case (1 env n s w)
  show ?case
  proof (cases "n = END")
    case True
    then show ?thesis by (simp add: run_END)
  next
    case False
    obtain w1 r1 where st: "step env n s w = (w1, r1)"
      by (cases "step env n s w")
    from step_log [OF st] obtain es where
      es: "llm_log w1 = llm_log w @ es" "length es \<le> 1" "\<forall>e\<in>set es. fst e = n"
        "es \<noteq> [] \<longrightarrow> n = Llm \<or> n = Limit_llm_request"
        "n = Llm \<and> (\<exists>p. r1 = Inr p) \<longrightarrow> es \<noteq> []"
      by blast
    show ?thesis
    proof (cases r1)
      case (Inl e)
      with st False have "run env n s w = (w1, Inl e)"
        by (simp add: run_unfold)
      moreover have "\<forall>k<length es. turns_left n s \<le> k \<longrightarrow> fst (es ! k) = Limit_llm_request"
      proof (intro allI impI)
        fix k assume k: "k < length es" "turns_left n s \<le> k"
        with es(2) have "k = 0" "es \<noteq> []" by auto
        with k es(4) have "n = Limit_llm_request" by auto
        with es(3) k(1) show "fst (es ! k) = Limit_llm_request" by simp
      qed
      ultimately show ?thesis using es(1,2) by auto
    next
      case (Inr p)
      obtain n' s' where p: "p = (n', s')" by (cases p)
      with st Inr have st': "step env n s w = (w1, Inr (n', s'))" by simp
      with False have r: "run env n s w = run env n' s' w1"
        by (simp add: run_unfold)
      from "1.IH" [OF False st [symmetric] Inr p [symmetric]] obtain new where
        new: "llm_log (fst (run env n' s' w1)) = llm_log w1 @ new"
          "length new \<le> turns_left n' s' + 1"
          "\<forall>k<length new. turns_left n' s' \<le> k \<longrightarrow> fst (new ! k) = Limit_llm_request"
        by blast
      have tl: "turns_left n' s' + (if n = Llm then 1 else 0) \<le> turns_left n s"
        by (rule step_turns_left [OF st'])
      have nx: "n = Limit_llm_request \<longrightarrow> n' = END"
        using step_next [OF st'] by simp
      have log: "llm_log (fst (run env n s w)) = llm_log w @ (es @ new)"
        using r new(1) es(1) by simp
      show ?thesis
      proof (cases es)
        case Nil
        with log new tl show ?thesis
          by (intro exI [of _ new]) (auto split: if_splits)
      next
        case (Cons e es')
        with es(2) have es1: "es = [e]" by simp
        from Cons es(4) consider "n = Llm" | "n = Limit_llm_request" by auto
        then show ?thesis
        proof cases
          case 1
          with tl have tl': "turns_left n' s' + 1 \<le> turns_left n s" by simp
          have "\<forall>k<length (e # new). turns_left n s \<le> k
                  \<longrightarrow> fst ((e # new) ! k) = Limit_llm_request"
          proof (intro allI impI)
            fix k assume k: "k < length (e # new)" "turns_left n s \<le> k"
            with tl' obtain j where j: "k = Suc j" by (cases k) auto
            with k tl' have "j < length new" "turns_left n' s' \<le> j" by auto
            with new(3) j show "fst ((e # new) ! k) = Limit_llm_request" by simp
          qed
          moreover have "length (e # new) \<le> turns_left n s + 1"
            using new(2) tl' by simp
          ultimately show ?thesis using log es1
            by (intro exI [of _ "e # new"]) simp
        next
          case 2
          with nx have "n' = END" by simp
          with new(1) have "new = []" by (simp add: run_END)
          moreover from 2 es(3) es1 have "fst e = Limit_llm_request" by simp
          ultimately show ?thesis using log es1
            by (intro exI [of _ "[e]"]) simp
        qed
      qed
    qed
  qed
qed

text \<open>
  Claim C2.  For every budget \<open>N \<ge> 1\<close> and every provider (so for every sequence of
  model responses: with tool calls, without, or failing), a run of the graph started
  at \<open>START\<close> returns (\<open>run\<close> is a total function, its termination is proved above)
  and makes at most \<open>N + 1\<close> model invocations; an invocation numbered \<open>N + 1\<close> is made
  by the node \<open>limit_llm_request\<close>.
\<close>

theorem run_invocations_bounded:
  assumes "1 \<le> iterations s"
  shows "\<exists>new. llm_log (fst (run env START s w)) = llm_log w @ new
           \<and> length new \<le> nat (iterations s) + 1
           \<and> (\<forall>k<length new. nat (iterations s) \<le> k \<longrightarrow> fst (new ! k) = Limit_llm_request)"
proof -
  from assms have tl: "turns_left START s = nat (iterations s)" by simp
  show ?thesis using run_log [of env START s w] unfolding tl .
qed

theorem run_invocations_bounded_witness:
  "1 \<le> iterations (state0 1)
   \<and> (\<exists>new. llm_log (fst (run (scenario [Responds ''go'' [read_task_7]] (Reply None (Some PNone)))
                START (state0 1) w0)) = llm_log w0 @ new
          \<and> length new \<le> nat (iterations (state0 1)) + 1
          \<and> (\<forall>k<length new. nat (iterations (state0 1)) \<le> k
                \<longrightarrow> fst (new ! k) = Limit_llm_request))"
proof -
  have h: "1 \<le> iterations (state0 1)"
    by (simp add: state0_def)
  from run_invocations_bounded [OF h] show ?thesis
    using h by blast
qed

subsection \<open>The counter of iterations\<close>

text \<open>The definitions a concrete step unfolds to.\<close>

lemmas eval_defs = step_def run_node_def call_llm_with_tools_def llm_generate_def
  scenario_def scripted_def state0_def w0_def apply_update_def add_messages_def
  next_node_def resolve_model_response_def follow_def path_map_llm_def Let_def
  call_task_manager_api_def path_map_call_api_def
  check_gemini_limit_request_def get_function_by_name_def funcs_def ainvoke_def
  arg_def req_int_def req_str_def read_task_def client_call_def read_task_7_def
  format_value_def bearer_def limit_llm_request_exceeded_def asked_def
  token_written_def write_token_def

lemma llm_step_invokes:
  "llm_log (fst (step env Llm s w)) = llm_log w @ [(Llm, True, messages s)]"
proof -
  obtain w1 r1 where g: "llm_generate env (messages s) True (w\<lparr>running := Llm\<rparr>) = (w1, r1)"
    by (cases "llm_generate env (messages s) True (w\<lparr>running := Llm\<rparr>)")
  from llm_generate_world [OF g] have "llm_log w1 = llm_log w @ [(Llm, True, messages s)]"
    by simp
  moreover from g have "fst (step env Llm s w) = w1"
    by (auto simp: step_def run_node_def call_llm_with_tools_def Let_def
        split: sum.splits option.splits)
  ultimately show ?thesis by simp
qed

lemma limit_step_invokes:
  "llm_log (fst (step env Limit_llm_request s w))
     = llm_log w @ [(Limit_llm_request, True, messages s @ [limit_prompt])]"
proof -
  obtain w1 r1 where g: "llm_generate env (messages s @ [limit_prompt]) True
      (w\<lparr>running := Limit_llm_request\<rparr>) = (w1, r1)"
    by (cases "llm_generate env (messages s @ [limit_prompt]) True
      (w\<lparr>running := Limit_llm_request\<rparr>)")
  from llm_generate_world [OF g]
  have "llm_log w1 = llm_log w @ [(Limit_llm_request, True, messages s @ [limit_prompt])]"
    by simp
  moreover from g have "fst (step env Limit_llm_request s w) = w1"
    by (auto simp: step_def run_node_def limit_llm_request_exceeded_def Let_def next_node_def
        split: sum.splits option.splits)
  ultimately show ?thesis by simp
qed

lemma call_api_step_messages:
  assumes "step env Call_api s w = (w', Inr (n', s'))"
  shows "\<exists>tool_messages. messages s' = messages (token_written s) @ tool_messages"
  using assms
  by (auto simp: step_def run_node_def apply_update_def add_messages_def Let_def
      split: prod.splits sum.splits)

text \<open>
  Claim C7.  A step of the node \<open>llm\<close> that completes lowers the counter by exactly one,
  and a step of any other node leaves it as it was.  The check compares the counter with
  \<open><= 0\<close>; it decides the node after \<open>call_api\<close>, on the state that already holds the tool
  messages of the turn, after the messages that were there (the last of them with the
  token written into its tool calls).  No check stands before a model turn: \<open>START\<close>
  leads to \<open>llm\<close> whatever the counter is, the step of \<open>llm\<close> always invokes the model,
  and the node after \<open>llm\<close> depends on the tool calls of the answer alone.
\<close>

theorem iterations_budget:
  "(step env n s w = (w', Inr (n', s'))
      \<longrightarrow> iterations s' = (if n = Llm then iterations s - 1 else iterations s))
   \<and> check_gemini_limit_request s
       = (if iterations s \<le> 0 then ''limit_llm_request'' else ''llm'')
   \<and> (step env Call_api sa wa = (wb, Inr (nb, sb))
      \<longrightarrow> (\<exists>tool_messages. messages sb = messages (token_written sa) @ tool_messages)
          \<and> nb = (if iterations sb \<le> 0 then Limit_llm_request else Llm))
   \<and> step env START s w = (w\<lparr>running := START\<rparr>, Inr (Llm, s))
   \<and> llm_log (fst (step env Llm s w)) = llm_log w @ [(Llm, True, messages s)]
   \<and> (step env Llm sc wc = (wd, Inr (nd, sd))
      \<longrightarrow> nd = (case tool_calls (last (messages sd)) of
                   Some (c # cs) \<Rightarrow> Call_api
                 | _ \<Rightarrow> END))"
proof (intro conjI impI)
  assume "step env n s w = (w', Inr (n', s'))"
  then show "iterations s' = (if n = Llm then iterations s - 1 else iterations s)"
    by (rule step_iterations)
next
  show "check_gemini_limit_request s
       = (if iterations s \<le> 0 then ''limit_llm_request'' else ''llm'')"
    by (simp add: check_gemini_limit_request_def)
next
  assume "step env Call_api sa wa = (wb, Inr (nb, sb))"
  then show "\<exists>tool_messages. messages sb = messages (token_written sa) @ tool_messages"
    by (rule call_api_step_messages)
next
  assume "step env Call_api sa wa = (wb, Inr (nb, sb))"
  from step_next [OF this]
  show "nb = (if iterations sb \<le> 0 then Limit_llm_request else Llm)"
    by simp
next
  show "step env START s w = (w\<lparr>running := START\<rparr>, Inr (Llm, s))"
    by (rule step_START)
next
  show "llm_log (fst (step env Llm s w)) = llm_log w @ [(Llm, True, messages s)]"
    by (rule llm_step_invokes)
next
  assume "step env Llm sc wc = (wd, Inr (nd, sd))"
  then show "nd = (case tool_calls (last (messages sd)) of
                   Some (c # cs) \<Rightarrow> Call_api
                 | _ \<Rightarrow> END)"
    by (auto simp: step_def run_node_def next_node_def Let_def follow_def path_map_llm_def
          resolve_model_response_def
        split: prod.splits sum.splits option.splits if_splits list.splits)
qed

theorem iterations_budget_witness:
  "\<exists>w' s' wb sb.
     step env_one_tool Llm (state0 1) w0 = (w', Inr (Call_api, s'))
     \<and> iterations s' = iterations (state0 1) - 1
     \<and> Call_api = (case tool_calls (last (messages s')) of
                      Some (c # cs) \<Rightarrow> Call_api
                    | _ \<Rightarrow> END)
     \<and> step env_one_tool Call_api (asked 0 [read_task_7]) w0 = (wb, Inr (Limit_llm_request, sb))
     \<and> (\<exists>tool_messages.
           messages sb = messages (token_written (asked 0 [read_task_7])) @ tool_messages)
     \<and> iterations sb = iterations (asked 0 [read_task_7])"
proof -
  obtain w' s' where a: "step env_one_tool Llm (state0 1) w0 = (w', Inr (Call_api, s'))"
    by (simp add: eval_defs env_one_tool_def)
  obtain wb sb where
    b: "step env_one_tool Call_api (asked 0 [read_task_7]) w0 = (wb, Inr (Limit_llm_request, sb))"
    by (simp add: eval_defs env_one_tool_def)
  from iterations_budget [of env_one_tool Llm "state0 1" w0 w' Call_api s'
      "asked 0 [read_task_7]" w0 wb Limit_llm_request sb "state0 1" w0 w' Call_api s'] a b
  have "iterations s' = iterations (state0 1) - 1"
    and "\<exists>tool_messages.
           messages sb = messages (token_written (asked 0 [read_task_7])) @ tool_messages"
    and "Call_api = (case tool_calls (last (messages s')) of
                      Some (c # cs) \<Rightarrow> Call_api
                    | _ \<Rightarrow> END)"
    by simp_all
  moreover from iterations_budget [of env_one_tool Call_api "asked 0 [read_task_7]" w0 wb
      Limit_llm_request sb] b
  have "iterations sb = iterations (asked 0 [read_task_7])"
    by simp
  ultimately show ?thesis using a b by blast
qed

subsection \<open>The forced turn\<close>

text \<open>
  The forced turn calls \<open>llm_generate(messages)\<close>: \<open>with_tools\<close> keeps its default
  \<open>True\<close>.
\<close>

lemma limit_turn_uses_tool_bound_model:
  "llm_log (fst (limit_llm_request_exceeded env s w))
     = llm_log w @ [(running w, True, messages s @ [limit_prompt])]"
proof -
  obtain w1 r1 where g: "llm_generate env (messages s @ [limit_prompt]) True w = (w1, r1)"
    by (cases "llm_generate env (messages s @ [limit_prompt]) True w")
  from llm_generate_world [OF g] g show ?thesis
    by (auto simp: limit_llm_request_exceeded_def split: sum.splits option.splits)
qed

text \<open>
  Claim C1, at a budget of one and a first answer that asks for a tool: the run invokes
  the model twice, the second time from \<open>limit_llm_request\<close>, and both invocations use
  the tool-bound model.  The claim says that the forced invocation has tools disabled.
\<close>

theorem forced_turn_has_tools_bound:
  "map (\<lambda>(n, with_tools, msgs). (n, with_tools))
     (llm_log (fst (run env_one_tool START (state0 1) w0)))
   = [(Llm, True), (Limit_llm_request, True)]"
  by code_simp


subsection \<open>Failure of the model gateway\<close>

lemma llm_generate_running:
  "snd (llm_generate env msgs wt (w\<lparr>running := n\<rparr>)) = snd (llm_generate env msgs wt w)"
  by (simp add: llm_generate_def Let_def split: provider_outcome.splits)

lemma llm_generate_None:
  "snd (llm_generate env msgs wt w) = Inr None
     \<longleftrightarrow> (\<exists>e. provider env (llm_log w) wt msgs = Raises e \<and> caught_by_llm_generate e)"
  by (auto simp: llm_generate_def Let_def split: provider_outcome.splits)

lemma caught_by_llm_generate_iff:
  "caught_by_llm_generate e
     \<longleftrightarrow> (\<exists>t. e = ChatGoogleGenerativeAIError t \<or> e = LangChainException t)"
  by (cases e) auto

lemma step_Llm_failure:
  assumes "snd (llm_generate env (messages s) True w) = Inr None"
  shows "snd (step env Llm s w) = Inl (HTTPException 500 ''Error while calling LLM'')"
    and "http_log (fst (step env Llm s w)) = http_log w"
proof -
  obtain w1 r1 where g: "llm_generate env (messages s) True (w\<lparr>running := Llm\<rparr>) = (w1, r1)"
    by (cases "llm_generate env (messages s) True (w\<lparr>running := Llm\<rparr>)")
  with assms llm_generate_running [of env "messages s" True Llm w] have r1: "r1 = Inr None"
    by simp
  from llm_generate_world [OF g] have "http_log w1 = http_log w" by simp
  with g r1 show "snd (step env Llm s w) = Inl (HTTPException 500 ''Error while calling LLM'')"
    and "http_log (fst (step env Llm s w)) = http_log w"
    by (simp_all add: step_def run_node_def call_llm_with_tools_def)
qed

lemma step_Limit_failure:
  assumes "snd (llm_generate env (messages s @ [limit_prompt]) True w) = Inr None"
  shows "snd (step env Limit_llm_request s w)
           = Inl (HTTPException 500 ''Error while calling LLM'')"
proof -
  obtain w1 r1 where g: "llm_generate env (messages s @ [limit_prompt]) True
      (w\<lparr>running := Limit_llm_request\<rparr>) = (w1, r1)"
    by (cases "llm_generate env (messages s @ [limit_prompt]) True
      (w\<lparr>running := Limit_llm_request\<rparr>)")
  with assms llm_generate_running [of env "messages s @ [limit_prompt]" True
      Limit_llm_request w]
  have "r1 = Inr None" by simp
  with g show ?thesis
    by (simp add: step_def run_node_def limit_llm_request_exceeded_def)
qed

lemma run_abort:
  assumes "n \<noteq> END" and "snd (step env n s w) = Inl e"
  shows "run env n s w = (fst (step env n s w), Inl e)"
  using assms by (cases "step env n s w") (simp add: run_unfold)

lemma run_START: "run env START s w = run env Llm s (w\<lparr>running := START\<rparr>)"
  by (simp add: run_unfold step_START)

lemma step_running: "step env n s (w\<lparr>running := m\<rparr>) = step env n s w"
  by (simp add: step_def)

lemma llm_generate_raises:
  assumes "provider env (llm_log w) wt msgs = Raises e"
    and "\<forall>t. e \<noteq> ChatGoogleGenerativeAIError t \<and> e \<noteq> LangChainException t"
  shows "snd (llm_generate env msgs wt w) = Inl e"
proof -
  from assms(2) have "\<not> caught_by_llm_generate e"
    by (simp add: caught_by_llm_generate_iff)
  with assms(1) show ?thesis
    by (simp add: llm_generate_def Let_def)
qed

lemma step_Llm_raises:
  assumes "snd (llm_generate env (messages s) True w) = Inl e"
  shows "snd (step env Llm s w) = Inl e"
    and "http_log (fst (step env Llm s w)) = http_log w"
proof -
  obtain w1 r1 where g: "llm_generate env (messages s) True (w\<lparr>running := Llm\<rparr>) = (w1, r1)"
    by (cases "llm_generate env (messages s) True (w\<lparr>running := Llm\<rparr>)")
  with assms llm_generate_running [of env "messages s" True Llm w] have r1: "r1 = Inl e"
    by simp
  from llm_generate_world [OF g] have "http_log w1 = http_log w" by simp
  with g r1 show "snd (step env Llm s w) = Inl e"
    and "http_log (fst (step env Llm s w)) = http_log w"
    by (simp_all add: step_def run_node_def call_llm_with_tools_def)
qed

lemma step_Limit_raises:
  assumes "snd (llm_generate env (messages s @ [limit_prompt]) True w) = Inl e"
  shows "snd (step env Limit_llm_request s w) = Inl e"
proof -
  obtain w1 r1 where g: "llm_generate env (messages s @ [limit_prompt]) True
      (w\<lparr>running := Limit_llm_request\<rparr>) = (w1, r1)"
    by (cases "llm_generate env (messages s @ [limit_prompt]) True
      (w\<lparr>running := Limit_llm_request\<rparr>)")
  with assms llm_generate_running [of env "messages s @ [limit_prompt]" True
      Limit_llm_request w]
  have "r1 = Inl e" by simp
  with g show ?thesis
    by (simp add: step_def run_node_def limit_llm_request_exceeded_def)
qed

text \<open>
  Claim C5, amended.  \<open>llm_generate\<close> returns \<open>None\<close> exactly when the provider call
  raises a \<open>ChatGoogleGenerativeAIError\<close> or a \<open>LangChainException\<close>; an exception of any
  other class leaves \<open>llm_generate\<close> as it is.  Whenever \<open>llm_generate\<close> returns \<open>None\<close>,
  the node that called it raises \<open>HTTPException(500)\<close> and the run ends with that
  exception, from \<open>llm\<close> as from \<open>limit_llm_request\<close>; when the first invocation of a run
  fails so, no request has been sent to the task manager and no state, hence no tool
  message, is returned.  Whenever the provider raises an exception of another class, the
  node, the step and the run end with that very exception, from \<open>llm\<close> as from
  \<open>limit_llm_request\<close>, and again a run that fails so at its first invocation has sent
  no request.
\<close>

theorem model_failure_is_fatal:
  "(snd (llm_generate env msgs with_tools w) = Inr None
      \<longleftrightarrow> (\<exists>e. provider env (llm_log w) with_tools msgs = Raises e
               \<and> (\<exists>t. e = ChatGoogleGenerativeAIError t \<or> e = LangChainException t)))
   \<and> (snd (llm_generate env (messages s) True w) = Inr None
      \<longrightarrow> snd (step env Llm s w) = Inl (HTTPException 500 ''Error while calling LLM'')
          \<and> snd (run env Llm s w) = Inl (HTTPException 500 ''Error while calling LLM'')
          \<and> snd (run env START s w) = Inl (HTTPException 500 ''Error while calling LLM'')
          \<and> http_log (fst (run env START s w)) = http_log w)
   \<and> (snd (llm_generate env (messages sa @ [limit_prompt]) True wa) = Inr None
      \<longrightarrow> snd (step env Limit_llm_request sa wa)
            = Inl (HTTPException 500 ''Error while calling LLM'')
          \<and> snd (run env Limit_llm_request sa wa)
            = Inl (HTTPException 500 ''Error while calling LLM''))
   \<and> (provider env (llm_log wx) wtx msgsx = Raises ex
      \<and> (\<forall>t. ex \<noteq> ChatGoogleGenerativeAIError t \<and> ex \<noteq> LangChainException t)
      \<longrightarrow> snd (llm_generate env msgsx wtx wx) = Inl ex)
   \<and> (provider env (llm_log wb) True (messages sb) = Raises eb
      \<and> (\<forall>t. eb \<noteq> ChatGoogleGenerativeAIError t \<and> eb \<noteq> LangChainException t)
      \<longrightarrow> snd (call_llm_with_tools env sb wb) = Inl eb
          \<and> snd (step env Llm sb wb) = Inl eb
          \<and> snd (run env Llm sb wb) = Inl eb
          \<and> snd (run env START sb wb) = Inl eb
          \<and> http_log (fst (run env START sb wb)) = http_log wb)
   \<and> (provider env (llm_log wc) True (messages sc @ [limit_prompt]) = Raises ec
      \<and> (\<forall>t. ec \<noteq> ChatGoogleGenerativeAIError t \<and> ec \<noteq> LangChainException t)
      \<longrightarrow> snd (limit_llm_request_exceeded env sc wc) = Inl ec
          \<and> snd (step env Limit_llm_request sc wc) = Inl ec
          \<and> snd (run env Limit_llm_request sc wc) = Inl ec)"
proof (intro conjI impI)
  show "snd (llm_generate env msgs with_tools w) = Inr None
      \<longleftrightarrow> (\<exists>e. provider env (llm_log w) with_tools msgs = Raises e
               \<and> (\<exists>t. e = ChatGoogleGenerativeAIError t \<or> e = LangChainException t))"
    by (simp add: llm_generate_None caught_by_llm_generate_iff)
next
  assume f: "snd (llm_generate env (messages s) True w) = Inr None"
  then show a: "snd (step env Llm s w) = Inl (HTTPException 500 ''Error while calling LLM'')"
    by (rule step_Llm_failure)
  then show b: "snd (run env Llm s w) = Inl (HTTPException 500 ''Error while calling LLM'')"
    by (simp add: run_abort)
  have r: "run env START s w
      = (fst (step env Llm s w), Inl (HTTPException 500 ''Error while calling LLM''))"
    using a by (simp add: run_START run_abort step_running)
  then show "snd (run env START s w) = Inl (HTTPException 500 ''Error while calling LLM'')"
    by simp
  from r step_Llm_failure(2) [OF f] show "http_log (fst (run env START s w)) = http_log w"
    by simp
next
  assume "snd (llm_generate env (messages sa @ [limit_prompt]) True wa) = Inr None"
  then show a: "snd (step env Limit_llm_request sa wa)
      = Inl (HTTPException 500 ''Error while calling LLM'')"
    by (rule step_Limit_failure)
  then show "snd (run env Limit_llm_request sa wa)
      = Inl (HTTPException 500 ''Error while calling LLM'')"
    by (simp add: run_abort)
next
  assume "provider env (llm_log wx) wtx msgsx = Raises ex
      \<and> (\<forall>t. ex \<noteq> ChatGoogleGenerativeAIError t \<and> ex \<noteq> LangChainException t)"
  then show "snd (llm_generate env msgsx wtx wx) = Inl ex"
    by (intro llm_generate_raises) simp_all
next
  assume "provider env (llm_log wb) True (messages sb) = Raises eb
      \<and> (\<forall>t. eb \<noteq> ChatGoogleGenerativeAIError t \<and> eb \<noteq> LangChainException t)"
  then have g: "snd (llm_generate env (messages sb) True wb) = Inl eb"
    by (intro llm_generate_raises) simp_all
  then show "snd (call_llm_with_tools env sb wb) = Inl eb"
    by (cases "llm_generate env (messages sb) True wb") (simp add: call_llm_with_tools_def)
  from g show a: "snd (step env Llm sb wb) = Inl eb"
    by (rule step_Llm_raises)
  then show "snd (run env Llm sb wb) = Inl eb"
    by (simp add: run_abort)
  have r: "run env START sb wb = (fst (step env Llm sb wb), Inl eb)"
    using a by (simp add: run_START run_abort step_running)
  then show "snd (run env START sb wb) = Inl eb"
    by simp
  from r step_Llm_raises(2) [OF g] show "http_log (fst (run env START sb wb)) = http_log wb"
    by simp
next
  assume "provider env (llm_log wc) True (messages sc @ [limit_prompt]) = Raises ec
      \<and> (\<forall>t. ec \<noteq> ChatGoogleGenerativeAIError t \<and> ec \<noteq> LangChainException t)"
  then have g: "snd (llm_generate env (messages sc @ [limit_prompt]) True wc) = Inl ec"
    by (intro llm_generate_raises) simp_all
  then show "snd (limit_llm_request_exceeded env sc wc) = Inl ec"
    by (cases "llm_generate env (messages sc @ [limit_prompt]) True wc")
       (simp add: limit_llm_request_exceeded_def)
  from g show a: "snd (step env Limit_llm_request sc wc) = Inl ec"
    by (rule step_Limit_raises)
  then show "snd (run env Limit_llm_request sc wc) = Inl ec"
    by (simp add: run_abort)
qed

theorem model_failure_is_fatal_witness:
  "snd (llm_generate env_fails (messages (state0 1)) True w0) = Inr None
   \<and> snd (run env_fails START (state0 1) w0)
       = Inl (HTTPException 500 ''Error while calling LLM'')
   \<and> http_log (fst (run env_fails START (state0 1) w0)) = http_log w0
   \<and> snd (llm_generate env_fails (messages (asked 0 [read_task_7]) @ [limit_prompt]) True w0)
       = Inr None
   \<and> snd (run env_fails Limit_llm_request (asked 0 [read_task_7]) w0)
       = Inl (HTTPException 500 ''Error while calling LLM'')
   \<and> provider env_fails (llm_log invoked_once) True (messages (state0 1))
       = Raises (OtherException ''timeout'')
   \<and> snd (llm_generate env_fails (messages (state0 1)) True invoked_once)
       = Inl (OtherException ''timeout'')
   \<and> snd (run env_fails START (state0 1) invoked_once) = Inl (OtherException ''timeout'')
   \<and> http_log (fst (run env_fails START (state0 1) invoked_once)) = http_log invoked_once
   \<and> provider env_fails (llm_log invoked_once) True
         (messages (asked 0 [read_task_7]) @ [limit_prompt])
       = Raises (OtherException ''timeout'')
   \<and> snd (run env_fails Limit_llm_request (asked 0 [read_task_7]) invoked_once)
       = Inl (OtherException ''timeout'')"
proof -
  have a: "snd (llm_generate env_fails (messages (state0 1)) True w0) = Inr None"
    by (simp add: llm_generate_def env_fails_def scenario_def scripted_def w0_def)
  have b: "snd (llm_generate env_fails (messages (asked 0 [read_task_7]) @ [limit_prompt])
      True w0) = Inr None"
    by (simp add: llm_generate_def env_fails_def scenario_def scripted_def w0_def)
  have c: "provider env_fails (llm_log invoked_once) True (messages (state0 1))
      = Raises (OtherException ''timeout'')
      \<and> (\<forall>t. OtherException ''timeout'' \<noteq> ChatGoogleGenerativeAIError t
             \<and> OtherException ''timeout'' \<noteq> LangChainException t)"
    by (simp add: env_fails_def scenario_def scripted_def invoked_once_def w0_def)
  have d: "provider env_fails (llm_log invoked_once) True
        (messages (asked 0 [read_task_7]) @ [limit_prompt])
      = Raises (OtherException ''timeout'')
      \<and> (\<forall>t. OtherException ''timeout'' \<noteq> ChatGoogleGenerativeAIError t
             \<and> OtherException ''timeout'' \<noteq> LangChainException t)"
    by (simp add: env_fails_def scenario_def scripted_def invoked_once_def w0_def)
  note inst = model_failure_is_fatal [where env = env_fails and msgs = "messages (state0 1)"
      and with_tools = True and w = w0 and s = "state0 1" and sa = "asked 0 [read_task_7]"
      and wa = w0 and wx = invoked_once and wtx = True and msgsx = "messages (state0 1)"
      and ex = "OtherException ''timeout''" and wb = invoked_once and sb = "state0 1"
      and eb = "OtherException ''timeout''" and wc = invoked_once
      and sc = "asked 0 [read_task_7]" and ec = "OtherException ''timeout''"]
  from inst a b c d show ?thesis
    by simp
qed

text \<open>
  Claim C5 as stated fails: the provider call raises, \<open>llm_generate\<close> does not return
  \<open>None\<close>, and the run ends with the provider's exception instead of
  \<open>HTTPException(500)\<close>.
\<close>

theorem other_provider_exception_propagates:
  "provider env_timeout (llm_log w0) True (messages (state0 1)) = Raises (OtherException ''timeout'')
   \<and> snd (llm_generate env_timeout (messages (state0 1)) True w0)
       = Inl (OtherException ''timeout'')
   \<and> snd (run env_timeout START (state0 1) w0) = Inl (OtherException ''timeout'')"
  by (simp add: run_START run_unfold eval_defs env_timeout_def)

subsection \<open>Unknown tools\<close>

lemma funcs_None: "funcs nm = None \<longleftrightarrow> nm \<notin> set (map tool_name tools)"
  by (auto simp: funcs_def tools_def)


lemma tool_loop_unknown:
  assumes "find (\<lambda>c. funcs (tc_name c) = None) tcs = Some c"
  shows "snd (tool_loop env tok tcs acc w)
           = Inl (NotImplementedError (''Function '' @ tc_name c @ '' is not implemented''))"
  using assms
proof (induction tcs arbitrary: acc w)
  case Nil
  then show ?case by simp
next
  case (Cons tc tcs)
  show ?case
  proof (cases "funcs (tc_name tc)")
    case None
    with Cons.prems show ?thesis by (auto simp: get_function_by_name_def)
  next
    case (Some f)
    with Cons.prems have "find (\<lambda>c. funcs (tc_name c) = None) tcs = Some c" by simp
    from Cons.IH [OF this] Some show ?thesis
      by (auto simp: get_function_by_name_def Let_def split: prod.splits)
  qed
qed

text \<open>
  Claim C4.  When a tool call of the last message has a name that is not one of the ten
  names of the catalog, \<open>get_function_by_name\<close> raises \<open>NotImplementedError\<close> for it; the
  exception leaves \<open>call_task_manager_api\<close>, the step and the run: the run ends with it,
  and returns no state in which a tool message could have been appended or the call
  skipped.
\<close>

theorem unknown_tool_aborts:
  assumes "messages s \<noteq> []"
    and "tool_calls (last (messages s)) = Some tcs"
    and "\<exists>c\<in>set tcs. tc_name c \<notin> set (map tool_name tools)"
  shows "\<exists>c\<in>set tcs. tc_name c \<notin> set (map tool_name tools)
           \<and> get_function_by_name (tc_name c)
               = Inl (NotImplementedError (''Function '' @ tc_name c @ '' is not implemented''))
           \<and> snd (call_task_manager_api env s w)
               = Inl (NotImplementedError (''Function '' @ tc_name c @ '' is not implemented''))
           \<and> snd (step env Call_api s w)
               = Inl (NotImplementedError (''Function '' @ tc_name c @ '' is not implemented''))
           \<and> snd (run env Call_api s w)
               = Inl (NotImplementedError (''Function '' @ tc_name c @ '' is not implemented''))"
proof -
  from assms(3) have "find (\<lambda>c. funcs (tc_name c) = None) tcs \<noteq> None"
    by (auto simp: find_None_iff funcs_None)
  then obtain c where f: "find (\<lambda>c. funcs (tc_name c) = None) tcs = Some c"
    by auto
  then have c: "c \<in> set tcs" "funcs (tc_name c) = None"
    by (auto simp: find_Some_iff)
  have l: "snd (tool_loop env (token s) tcs [] v)
      = Inl (NotImplementedError (''Function '' @ tc_name c @ '' is not implemented''))" for v
    by (rule tool_loop_unknown [OF f])
  have n: "snd (call_task_manager_api env s v)
      = Inl (NotImplementedError (''Function '' @ tc_name c @ '' is not implemented''))" for v
    using assms(1,2) l [of v]
    by (cases "tool_loop env (token s) tcs [] v") (simp add: call_task_manager_api_def)
  have st: "snd (step env Call_api s w)
      = Inl (NotImplementedError (''Function '' @ tc_name c @ '' is not implemented''))"
    using n [of "w\<lparr>running := Call_api\<rparr>"]
    by (cases "call_task_manager_api env s (w\<lparr>running := Call_api\<rparr>)")
       (simp add: step_def run_node_def)
  have r: "snd (run env Call_api s w)
      = Inl (NotImplementedError (''Function '' @ tc_name c @ '' is not implemented''))"
    using st by (simp add: run_abort)
  have g: "get_function_by_name (tc_name c)
      = Inl (NotImplementedError (''Function '' @ tc_name c @ '' is not implemented''))"
    using c(2) by (simp add: get_function_by_name_def)
  have m: "tc_name c \<notin> set (map tool_name tools)"
    using c(2) funcs_None by blast
  from c(1) m g n [of w] st r show ?thesis
    by blast
qed

theorem unknown_tool_aborts_witness:
  "messages (asked 1 [read_task_7, foo_call]) \<noteq> []
   \<and> tool_calls (last (messages (asked 1 [read_task_7, foo_call]))) = Some [read_task_7, foo_call]
   \<and> (\<exists>c\<in>set [read_task_7, foo_call]. tc_name c \<notin> set (map tool_name tools)
         \<and> snd (run env_one_tool Call_api (asked 1 [read_task_7, foo_call]) w0)
             = Inl (NotImplementedError (''Function '' @ tc_name c @ '' is not implemented'')))"
proof -
  have a: "messages (asked 1 [read_task_7, foo_call]) \<noteq> []"
    by (simp add: asked_def state0_def)
  have b: "tool_calls (last (messages (asked 1 [read_task_7, foo_call])))
      = Some [read_task_7, foo_call]"
    by (simp add: asked_def state0_def)
  have c: "\<exists>c\<in>set [read_task_7, foo_call]. tc_name c \<notin> set (map tool_name tools)"
    by (simp add: foo_call_def tools_def)
  from unknown_tool_aborts [OF a b c, of env_one_tool w0] a b show ?thesis
    by blast
qed

subsection \<open>The tool loop\<close>

lemma tool_loop_raise:
  assumes "get_function_by_name (tc_name tc) = Inr f"
    and "ainvoke env f ((tc_args tc)(''token'' \<mapsto> PStr tok)) w = (w', Inl e)"
  shows "tool_loop env tok (tc # tcs) acc w
           = tool_loop env tok tcs
               (acc @ [ToolMessage (''Function result is: '' @ exc_str env e)
                         (tc_id tc) (tc_name tc)]) w'"
  using assms by (simp add: format_value_def)

lemma tool_loop_resolved:
  assumes "\<forall>c\<in>set tcs. funcs (tc_name c) \<noteq> None"
  shows "\<exists>w' ms. tool_loop env tok tcs acc w = (w', Inr (acc @ ms))
           \<and> list_all2 (\<lambda>tc m. \<exists>c. m = ToolMessage (''Function result is: '' @ c)
                                         (tc_id tc) (tc_name tc)) tcs ms"
  using assms
proof (induction tcs arbitrary: acc w)
  case Nil
  then show ?case by simp
next
  case (Cons tc tcs)
  from Cons.prems obtain f where f: "get_function_by_name (tc_name tc) = Inr f"
    by (auto simp: get_function_by_name_def)
  obtain w1 r1 where a: "ainvoke env f ((tc_args tc)(''token'' \<mapsto> PStr tok)) w = (w1, r1)"
    by (cases "ainvoke env f ((tc_args tc)(''token'' \<mapsto> PStr tok)) w")
  define m where "m = ToolMessage (''Function result is: '' @ format_value env
      (case r1 of Inr v \<Rightarrow> v | Inl e \<Rightarrow> PStr (exc_str env e))) (tc_id tc) (tc_name tc)"
  from Cons.prems have "\<forall>c\<in>set tcs. funcs (tc_name c) \<noteq> None" by simp
  from Cons.IH [OF this, of "acc @ [m]" w1] obtain w' ms where
    ih: "tool_loop env tok tcs (acc @ [m]) w1 = (w', Inr ((acc @ [m]) @ ms))"
      "list_all2 (\<lambda>tc m. \<exists>c. m = ToolMessage (''Function result is: '' @ c)
                              (tc_id tc) (tc_name tc)) tcs ms"
    by blast
  from f a ih(1) have "tool_loop env tok (tc # tcs) acc w = (w', Inr (acc @ (m # ms)))"
    by (simp add: m_def)
  moreover from ih(2) have "list_all2 (\<lambda>tc m. \<exists>c. m = ToolMessage (''Function result is: '' @ c)
                              (tc_id tc) (tc_name tc)) (tc # tcs) (m # ms)"
    by (simp add: m_def)
  ultimately show ?case by blast
qed

text \<open>The messages the loop returns are those it was given, then those it makes.\<close>

lemma tool_loop_acc:
  "tool_loop env tok tcs acc w =
     (case tool_loop env tok tcs [] w of
        (w', Inl e) \<Rightarrow> (w', Inl e)
      | (w', Inr ms) \<Rightarrow> (w', Inr (acc @ ms)))"
proof (induction tcs arbitrary: acc w)
  case Nil
  show ?case by simp
next
  case (Cons tc tcs)
  show ?case
  proof (cases "get_function_by_name (tc_name tc)")
    case (Inl e)
    then show ?thesis by simp
  next
    case (Inr f)
    obtain w1 r1 where a: "ainvoke env f ((tc_args tc)(''token'' \<mapsto> PStr tok)) w = (w1, r1)"
      by (cases "ainvoke env f ((tc_args tc)(''token'' \<mapsto> PStr tok)) w")
    define m where "m = ToolMessage (''Function result is: '' @ format_value env
        (case r1 of Inr v \<Rightarrow> v | Inl e \<Rightarrow> PStr (exc_str env e))) (tc_id tc) (tc_name tc)"
    have l: "tool_loop env tok (tc # tcs) acc' w = tool_loop env tok tcs (acc' @ [m]) w1"
      for acc'
      using Inr a by (simp add: m_def)
    obtain w2 r2 where t: "tool_loop env tok tcs [] w1 = (w2, r2)"
      by (cases "tool_loop env tok tcs [] w1")
    have "tool_loop env tok (tc # tcs) acc w
        = (case r2 of Inl e \<Rightarrow> (w2, Inl e) | Inr ms \<Rightarrow> (w2, Inr ((acc @ [m]) @ ms)))"
      unfolding l Cons.IH [of "acc @ [m]" w1] t by (simp split: sum.splits)
    moreover have "tool_loop env tok (tc # tcs) [] w
        = (case r2 of Inl e \<Rightarrow> (w2, Inl e) | Inr ms \<Rightarrow> (w2, Inr (([] @ [m]) @ ms)))"
      unfolding l Cons.IH [of "[] @ [m]" w1] t by (simp split: sum.splits)
    ultimately show ?thesis
      by (simp split: sum.splits)
  qed
qed

text \<open>The loop over a list of tool calls, cut in two.\<close>

lemma tool_loop_append:
  "tool_loop env tok (xs @ ys) acc w =
     (case tool_loop env tok xs acc w of
        (w1, Inl e) \<Rightarrow> (w1, Inl e)
      | (w1, Inr acc1) \<Rightarrow> tool_loop env tok ys acc1 w1)"
proof (induction xs arbitrary: acc w)
  case Nil
  show ?case by simp
next
  case (Cons tc xs)
  show ?case
  proof (cases "get_function_by_name (tc_name tc)")
    case (Inl e)
    then show ?thesis by simp
  next
    case (Inr f)
    obtain w1 r1 where a: "ainvoke env f ((tc_args tc)(''token'' \<mapsto> PStr tok)) w = (w1, r1)"
      by (cases "ainvoke env f ((tc_args tc)(''token'' \<mapsto> PStr tok)) w")
    show ?thesis
      using Inr a by (simp add: Cons.IH)
  qed
qed

lemma call_api_step_resolved:
  assumes "messages s \<noteq> []"
    and "tool_calls (last (messages s)) = Some tcs"
    and "\<forall>c\<in>set tcs. funcs (tc_name c) \<noteq> None"
  shows "\<exists>w' n' s' ms. step env Call_api s w = (w', Inr (n', s'))
           \<and> (n' = Llm \<or> n' = Limit_llm_request)
           \<and> messages s' = messages (token_written s) @ ms
           \<and> llm_log w' = llm_log w
           \<and> list_all2 (\<lambda>tc m. \<exists>c. m = ToolMessage (''Function result is: '' @ c)
                                         (tc_id tc) (tc_name tc)) tcs ms"
proof -
  from tool_loop_resolved [OF assms(3), of env "token s" "[]" "w\<lparr>running := Call_api\<rparr>"]
  obtain w' ms where
    l: "tool_loop env (token s) tcs [] (w\<lparr>running := Call_api\<rparr>) = (w', Inr ms)"
    and a: "list_all2 (\<lambda>tc m. \<exists>c. m = ToolMessage (''Function result is: '' @ c)
                              (tc_id tc) (tc_name tc)) tcs ms"
    by auto
  from tool_loop_logs [OF l] have lg: "llm_log w' = llm_log w" by simp
  define s' where
    "s' = apply_update (token_written s) \<lparr>new_messages = ms, new_iterations = None\<rparr>"
  define n' where "n' = (if iterations s \<le> 0 then Limit_llm_request else Llm)"
  have "step env Call_api s w = (w', Inr (n', s'))"
    using assms(1,2) l
    by (simp add: step_def run_node_def call_task_manager_api_def next_node_def follow_def
        path_map_call_api_def check_gemini_limit_request_def apply_update_def s'_def n'_def)
  moreover have "messages s' = messages (token_written s) @ ms"
    by (simp add: s'_def apply_update_def add_messages_def)
  moreover have "n' = Llm \<or> n' = Limit_llm_request"
    by (simp add: n'_def)
  ultimately show ?thesis using lg a by blast
qed

text \<open>
  A turn whose tool calls all resolve, seen from one call \<open>tc\<close> whose function raises
  \<open>e\<close>: the calls \<open>pre\<close> before it and the calls \<open>post\<close> after it.
\<close>

lemma call_api_step_contained:
  assumes "messages s \<noteq> []"
    and "tool_calls (last (messages s)) = Some (pre @ tc # post)"
    and "\<forall>c\<in>set (pre @ tc # post). funcs (tc_name c) \<noteq> None"
    and "get_function_by_name (tc_name tc) = Inr f"
    and "ainvoke env f ((tc_args tc)(''token'' \<mapsto> PStr (token s)))
           (fst (tool_loop env (token s) pre [] (w\<lparr>running := Call_api\<rparr>))) = (w2, Inl e)"
  shows "\<exists>ms_pre w' ms_post n' s'.
           snd (tool_loop env (token s) pre [] (w\<lparr>running := Call_api\<rparr>)) = Inr ms_pre
         \<and> length ms_pre = length pre
         \<and> tool_loop env (token s) post [] w2 = (w', Inr ms_post)
         \<and> length ms_post = length post
         \<and> call_task_manager_api env s (w\<lparr>running := Call_api\<rparr>)
             = (w', Inr \<lparr>new_messages =
                          ms_pre @ ToolMessage (''Function result is: '' @ exc_str env e)
                                     (tc_id tc) (tc_name tc) # ms_post,
                        new_iterations = None\<rparr>)
         \<and> step env Call_api s w = (w', Inr (n', s'))
         \<and> messages s'
             = messages (token_written s) @ ms_pre
                 @ ToolMessage (''Function result is: '' @ exc_str env e)
                     (tc_id tc) (tc_name tc) # ms_post
         \<and> n' = (if iterations s \<le> 0 then Limit_llm_request else Llm)
         \<and> run env Call_api s w = run env n' s' w'"
proof -
  let ?w = "w\<lparr>running := Call_api\<rparr>"
  let ?m = "ToolMessage (''Function result is: '' @ exc_str env e) (tc_id tc) (tc_name tc)"
  from assms(3) have rp: "\<forall>c\<in>set pre. funcs (tc_name c) \<noteq> None"
    and rq: "\<forall>c\<in>set post. funcs (tc_name c) \<noteq> None"
    by simp_all
  from tool_loop_resolved [OF rp, of env "token s" "[]" ?w] obtain w1 ms_pre where
    p: "tool_loop env (token s) pre [] ?w = (w1, Inr ms_pre)"
    and pa: "list_all2 (\<lambda>tc m. \<exists>c. m = ToolMessage (''Function result is: '' @ c)
                              (tc_id tc) (tc_name tc)) pre ms_pre"
    by auto
  from p assms(5) have a: "ainvoke env f ((tc_args tc)(''token'' \<mapsto> PStr (token s))) w1
      = (w2, Inl e)"
    by simp
  from tool_loop_resolved [OF rq, of env "token s" "[]" w2] obtain w' ms_post where
    q: "tool_loop env (token s) post [] w2 = (w', Inr ms_post)"
    and qa: "list_all2 (\<lambda>tc m. \<exists>c. m = ToolMessage (''Function result is: '' @ c)
                              (tc_id tc) (tc_name tc)) post ms_post"
    by auto
  have "tool_loop env (token s) (pre @ tc # post) [] ?w
      = tool_loop env (token s) (tc # post) ms_pre w1"
    by (simp only: tool_loop_append p prod.case sum.case)
  also have "\<dots> = tool_loop env (token s) post (ms_pre @ [?m]) w2"
    by (rule tool_loop_raise [OF assms(4) a])
  also have "\<dots> = (w', Inr ((ms_pre @ [?m]) @ ms_post))"
    by (simp only: tool_loop_acc [of env "token s" post "ms_pre @ [?m]" w2] q prod.case
        sum.case)
  finally have l: "tool_loop env (token s) (pre @ tc # post) [] ?w
      = (w', Inr (ms_pre @ ?m # ms_post))"
    by simp
  define s' where "s' = apply_update (token_written s)
      \<lparr>new_messages = ms_pre @ ?m # ms_post, new_iterations = None\<rparr>"
  define n' where "n' = (if iterations s \<le> 0 then Limit_llm_request else Llm)"
  have nd: "call_task_manager_api env s ?w
      = (w', Inr \<lparr>new_messages = ms_pre @ ?m # ms_post, new_iterations = None\<rparr>)"
    using assms(1,2) by (simp add: call_task_manager_api_def l)
  have st: "step env Call_api s w = (w', Inr (n', s'))"
    by (simp add: step_def run_node_def nd next_node_def follow_def
        path_map_call_api_def check_gemini_limit_request_def apply_update_def s'_def n'_def)
  have ms: "messages s' = messages (token_written s) @ ms_pre @ ?m # ms_post"
    by (simp add: s'_def apply_update_def add_messages_def)
  have rn: "run env Call_api s w = run env n' s' w'"
    using st by (simp add: run_unfold)
  from pa have lp: "length ms_pre = length pre"
    by (simp add: list_all2_lengthD)
  from qa have lq: "length ms_post = length post"
    by (simp add: list_all2_lengthD)
  from p have sp: "snd (tool_loop env (token s) pre [] ?w) = Inr ms_pre"
    by simp
  from sp lp q lq nd st ms n'_def rn show ?thesis
    by blast
qed

text \<open>
  Claim C3, amended.  Take a turn whose tool calls all name tools of the catalog, and in
  it a tool call \<open>tc\<close>, after the calls \<open>pre\<close> and before the calls \<open>post\<close>, whose function
  raises an exception \<open>e\<close> when it is invoked in the world the calls before it have left.
  The node does not raise: it returns one tool message for every call of the turn, in
  order; the message of \<open>tc\<close> has the content \<open>"Function result is: " + str(e)\<close>, which is
  not empty, and the identifier and the name of \<open>tc\<close>; the calls of \<open>post\<close> are executed
  by the same loop, from the world the failed call left.  The step appends these messages
  and leads to \<open>llm\<close>, or to \<open>limit_llm_request\<close> when the counter is used up; the run goes
  on from there, and the next step invokes the model.
\<close>

theorem tool_failure_contained:
  assumes "messages s \<noteq> []"
    and "tool_calls (last (messages s)) = Some (pre @ tc # post)"
    and "\<forall>c\<in>set (pre @ tc # post). tc_name c \<in> set (map tool_name tools)"
    and "get_function_by_name (tc_name tc) = Inr f"
    and "ainvoke env f ((tc_args tc)(''token'' \<mapsto> PStr (token s)))
           (fst (tool_loop env (token s) pre [] (w\<lparr>running := Call_api\<rparr>))) = (w2, Inl e)"
  shows "\<exists>ms_pre w' ms_post n' s'.
           snd (tool_loop env (token s) pre [] (w\<lparr>running := Call_api\<rparr>)) = Inr ms_pre
         \<and> length ms_pre = length pre
         \<and> tool_loop env (token s) post [] w2 = (w', Inr ms_post)
         \<and> length ms_post = length post
         \<and> call_task_manager_api env s (w\<lparr>running := Call_api\<rparr>)
             = (w', Inr \<lparr>new_messages =
                          ms_pre @ ToolMessage (''Function result is: '' @ exc_str env e)
                                     (tc_id tc) (tc_name tc) # ms_post,
                        new_iterations = None\<rparr>)
         \<and> content (ToolMessage (''Function result is: '' @ exc_str env e)
                      (tc_id tc) (tc_name tc)) \<noteq> []
         \<and> step env Call_api s w = (w', Inr (n', s'))
         \<and> messages s'
             = messages (token_written s) @ ms_pre
                 @ ToolMessage (''Function result is: '' @ exc_str env e)
                     (tc_id tc) (tc_name tc) # ms_post
         \<and> n' = (if iterations s \<le> 0 then Limit_llm_request else Llm)
         \<and> run env Call_api s w = run env n' s' w'
         \<and> (\<exists>rest. llm_log (fst (step env n' s' w'))
                       = llm_log w @ [(n', True, messages s' @ rest)])"
proof -
  from assms(3) have r: "\<forall>c\<in>set (pre @ tc # post). funcs (tc_name c) \<noteq> None"
    using funcs_None by blast
  from call_api_step_contained [OF assms(1,2) r assms(4,5)]
  obtain ms_pre w' ms_post n' s' where
    c: "snd (tool_loop env (token s) pre [] (w\<lparr>running := Call_api\<rparr>)) = Inr ms_pre"
      "length ms_pre = length pre"
      "tool_loop env (token s) post [] w2 = (w', Inr ms_post)"
      "length ms_post = length post"
      "call_task_manager_api env s (w\<lparr>running := Call_api\<rparr>)
         = (w', Inr \<lparr>new_messages =
                      ms_pre @ ToolMessage (''Function result is: '' @ exc_str env e)
                                 (tc_id tc) (tc_name tc) # ms_post,
                    new_iterations = None\<rparr>)"
      "step env Call_api s w = (w', Inr (n', s'))"
      "messages s'
         = messages (token_written s) @ ms_pre
             @ ToolMessage (''Function result is: '' @ exc_str env e)
                 (tc_id tc) (tc_name tc) # ms_post"
      "n' = (if iterations s \<le> 0 then Limit_llm_request else Llm)"
      "run env Call_api s w = run env n' s' w'"
    by blast
  have ne: "content (ToolMessage (''Function result is: '' @ exc_str env e)
                      (tc_id tc) (tc_name tc)) \<noteq> []"
    by simp
  from step_log [OF c(6)] have lg: "llm_log w' = llm_log w"
    by auto
  have nx: "\<exists>rest. llm_log (fst (step env n' s' w'))
      = llm_log w @ [(n', True, messages s' @ rest)]"
  proof (cases "iterations s \<le> 0")
    case True
    with c(8) have "n' = Limit_llm_request" by simp
    with lg limit_step_invokes [of env s' w'] show ?thesis
      by (intro exI [of _ "[limit_prompt]"]) simp
  next
    case False
    with c(8) have "n' = Llm" by simp
    with lg llm_step_invokes [of env s' w'] show ?thesis
      by (intro exI [of _ "[]"]) simp
  qed
  from c ne nx show ?thesis
    by blast
qed

theorem tool_failure_contained_witness:
  "messages (asked 1 [list_call, read_task_7, list_call]) \<noteq> []
   \<and> tool_calls (last (messages (asked 1 [list_call, read_task_7, list_call])))
       = Some ([list_call] @ read_task_7 # [list_call])
   \<and> tc_name list_call \<in> set (map tool_name tools)
   \<and> tc_name read_task_7 \<in> set (map tool_name tools)
   \<and> get_function_by_name (tc_name read_task_7) = Inr T_read_task
   \<and> snd (ainvoke env_flaky T_read_task
            ((tc_args read_task_7)(''token'' \<mapsto> PStr ''secret''))
            (fst (tool_loop env_flaky ''secret'' [list_call] [] (w0\<lparr>running := Call_api\<rparr>))))
       = Inl (UnboundLocalError ''response'')
   \<and> (\<exists>w' s'.
         call_task_manager_api env_flaky (asked 1 [list_call, read_task_7, list_call])
             (w0\<lparr>running := Call_api\<rparr>)
           = (w', Inr \<lparr>new_messages =
                        [ToolMessage ''Function result is: value'' ''call-3'' ''collection_list'',
                         ToolMessage ''Function result is: response'' ''call-1'' ''read_task'',
                         ToolMessage ''Function result is: value'' ''call-3'' ''collection_list''],
                      new_iterations = None\<rparr>)
         \<and> length (http_log w') = 3
         \<and> step env_flaky Call_api (asked 1 [list_call, read_task_7, list_call]) w0
             = (w', Inr (Llm, s'))
         \<and> run env_flaky Call_api (asked 1 [list_call, read_task_7, list_call]) w0
             = run env_flaky Llm s' w')"
proof -
  let ?s = "asked 1 [list_call, read_task_7, list_call]"
  have a: "messages ?s \<noteq> []"
    by (simp add: asked_def state0_def)
  have b: "tool_calls (last (messages ?s)) = Some ([list_call] @ read_task_7 # [list_call])"
    by (simp add: asked_def state0_def)
  have c: "\<forall>c\<in>set ([list_call] @ read_task_7 # [list_call]).
      tc_name c \<in> set (map tool_name tools)"
    by (simp add: read_task_7_def list_call_def tools_def)
  from c have c1: "tc_name list_call \<in> set (map tool_name tools)"
    and c2: "tc_name read_task_7 \<in> set (map tool_name tools)"
    by simp_all
  have g: "get_function_by_name (tc_name read_task_7) = Inr T_read_task"
    by (simp add: eval_defs)
  have tk: "token ?s = ''secret''"
    by (simp add: asked_def state0_def)
  obtain w2 where i: "ainvoke env_flaky T_read_task
      ((tc_args read_task_7)(''token'' \<mapsto> PStr (token ?s)))
      (fst (tool_loop env_flaky (token ?s) [list_call] [] (w0\<lparr>running := Call_api\<rparr>)))
        = (w2, Inl (UnboundLocalError ''response''))"
    by (simp add: tk eval_defs env_flaky_def list_call_def collection_list_def)
  from i have i': "snd (ainvoke env_flaky T_read_task
      ((tc_args read_task_7)(''token'' \<mapsto> PStr ''secret''))
      (fst (tool_loop env_flaky ''secret'' [list_call] [] (w0\<lparr>running := Call_api\<rparr>))))
        = Inl (UnboundLocalError ''response'')"
    by (simp add: tk)
  obtain w' where n: "call_task_manager_api env_flaky ?s (w0\<lparr>running := Call_api\<rparr>)
      = (w', Inr \<lparr>new_messages =
                   [ToolMessage ''Function result is: value'' ''call-3'' ''collection_list'',
                    ToolMessage ''Function result is: response'' ''call-1'' ''read_task'',
                    ToolMessage ''Function result is: value'' ''call-3'' ''collection_list''],
                 new_iterations = None\<rparr>)"
    and h: "length (http_log w') = 3"
    by (simp add: eval_defs env_flaky_def list_call_def collection_list_def)
  from tool_failure_contained [OF a b c g i]
  obtain ms_pre wn ms_post n' s' where
    t: "call_task_manager_api env_flaky ?s (w0\<lparr>running := Call_api\<rparr>)
         = (wn, Inr \<lparr>new_messages =
                      ms_pre @ ToolMessage (''Function result is: ''
                                   @ exc_str env_flaky (UnboundLocalError ''response''))
                                 (tc_id read_task_7) (tc_name read_task_7) # ms_post,
                    new_iterations = None\<rparr>)"
      "step env_flaky Call_api ?s w0 = (wn, Inr (n', s'))"
      "n' = (if iterations ?s \<le> 0 then Limit_llm_request else Llm)"
      "run env_flaky Call_api ?s w0 = run env_flaky n' s' wn"
    by blast
  from t(1) n have wn: "wn = w'"
    by simp
  from t(3) have n': "n' = Llm"
    by (simp add: asked_def state0_def)
  from t(2,4) have st: "step env_flaky Call_api ?s w0 = (w', Inr (Llm, s'))"
    and rn: "run env_flaky Call_api ?s w0 = run env_flaky Llm s' w'"
    unfolding wn n' by simp_all
  from n h st rn have e: "\<exists>w' s'.
         call_task_manager_api env_flaky ?s (w0\<lparr>running := Call_api\<rparr>)
           = (w', Inr \<lparr>new_messages =
                        [ToolMessage ''Function result is: value'' ''call-3'' ''collection_list'',
                         ToolMessage ''Function result is: response'' ''call-1'' ''read_task'',
                         ToolMessage ''Function result is: value'' ''call-3'' ''collection_list''],
                      new_iterations = None\<rparr>)
         \<and> length (http_log w') = 3
         \<and> step env_flaky Call_api ?s w0 = (w', Inr (Llm, s'))
         \<and> run env_flaky Call_api ?s w0 = run env_flaky Llm s' w'"
    by blast
  from a b c1 c2 g i' e show ?thesis
    by (intro conjI)
qed

text \<open>
  Claim C3 as stated fails for a turn in which a later tool call names no tool of the
  catalog: the function of the first call raises and the loop goes on, then the second
  call ends the step and the run with \<open>NotImplementedError\<close>.
\<close>

theorem failure_then_unknown_tool_aborts:
  "tool_calls (last (messages (asked 1 [read_task_7, foo_call]))) = Some [read_task_7, foo_call]
   \<and> get_function_by_name (tc_name read_task_7) = Inr T_read_task
   \<and> snd (ainvoke env_down T_read_task
            ((tc_args read_task_7)(''token'' \<mapsto> PStr ''secret'')) (w0\<lparr>running := Call_api\<rparr>))
       = Inl (UnboundLocalError ''response'')
   \<and> snd (call_task_manager_api env_down (asked 1 [read_task_7, foo_call])
            (w0\<lparr>running := Call_api\<rparr>))
       = Inl (NotImplementedError ''Function foo is not implemented'')
   \<and> snd (step env_down Call_api (asked 1 [read_task_7, foo_call]) w0)
       = Inl (NotImplementedError ''Function foo is not implemented'')
   \<and> snd (run env_down Call_api (asked 1 [read_task_7, foo_call]) w0)
       = Inl (NotImplementedError ''Function foo is not implemented'')
   \<and> length (http_log (fst (run env_down Call_api (asked 1 [read_task_7, foo_call]) w0))) = 1"
  by (simp add: run_unfold eval_defs foo_call_def env_down_def)

text \<open>
  Claim C6, amended.  For a message whose \<open>k\<close> tool calls all name tools of the catalog,
  the step of \<open>call_api\<close> appends exactly \<open>k\<close> tool messages, the \<open>i\<close>-th carrying the
  identifier and the name of the \<open>i\<close>-th call, after the messages that were there (the
  last of them with the token written into its tool calls); the model is not invoked
  during the step, and the next invocation, by \<open>llm\<close> or by \<open>limit_llm_request\<close>, is sent
  the history with all \<open>k\<close> of them.
\<close>

theorem tool_results_answer_calls_in_order:
  assumes "messages s \<noteq> []"
    and "tool_calls (last (messages s)) = Some tcs"
    and "\<forall>c\<in>set tcs. tc_name c \<in> set (map tool_name tools)"
  shows "\<exists>w' n' s' ms. step env Call_api s w = (w', Inr (n', s'))
           \<and> messages s' = messages (token_written s) @ ms
           \<and> length (messages (token_written s)) = length (messages s)
           \<and> butlast (messages (token_written s)) = butlast (messages s)
           \<and> length ms = length tcs
           \<and> (\<forall>i<length tcs. \<exists>c. ms ! i = ToolMessage c (tc_id (tcs ! i)) (tc_name (tcs ! i)))
           \<and> llm_log w' = llm_log w
           \<and> (n' = Llm \<or> n' = Limit_llm_request)
           \<and> (\<exists>rest. llm_log (fst (step env n' s' w'))
                         = llm_log w' @ [(n', True, messages (token_written s) @ ms @ rest)])"
proof -
  from assms(3) have r: "\<forall>c\<in>set tcs. funcs (tc_name c) \<noteq> None"
    using funcs_None by blast
  from call_api_step_resolved [OF assms(1,2) r, of env w] obtain w' n' s' ms where
    st: "step env Call_api s w = (w', Inr (n', s'))"
    and n': "n' = Llm \<or> n' = Limit_llm_request"
    and ms: "messages s' = messages (token_written s) @ ms"
    and lg: "llm_log w' = llm_log w"
    and a: "list_all2 (\<lambda>tc m. \<exists>c. m = ToolMessage (''Function result is: '' @ c)
                              (tc_id tc) (tc_name tc)) tcs ms"
    by blast
  have lw: "length (messages (token_written s)) = length (messages s)"
    and bw: "butlast (messages (token_written s)) = butlast (messages s)"
    by simp_all
  from a have len: "length ms = length tcs"
    by (simp add: list_all2_lengthD)
  from a have nth: "\<forall>i<length tcs. \<exists>c. ms ! i
      = ToolMessage c (tc_id (tcs ! i)) (tc_name (tcs ! i))"
    by (auto simp: list_all2_conv_all_nth)
  have "\<exists>rest. llm_log (fst (step env n' s' w'))
      = llm_log w' @ [(n', True, messages (token_written s) @ ms @ rest)]"
  proof (cases "n' = Llm")
    case True
    with ms llm_step_invokes [of env s' w'] show ?thesis
      by (intro exI [of _ "[]"]) simp
  next
    case False
    with n' have "n' = Limit_llm_request" by simp
    with ms limit_step_invokes [of env s' w'] show ?thesis
      by (intro exI [of _ "[limit_prompt]"]) simp
  qed
  with st ms lw bw len nth lg n' show ?thesis by blast
qed

theorem tool_results_answer_calls_in_order_witness:
  "messages (asked 1 [read_task_7, list_call]) \<noteq> []
   \<and> tool_calls (last (messages (asked 1 [read_task_7, list_call])))
       = Some [read_task_7, list_call]
   \<and> tc_name read_task_7 \<in> set (map tool_name tools)
   \<and> tc_name list_call \<in> set (map tool_name tools)
   \<and> (\<exists>w' n' s' ms.
         step env_one_tool Call_api (asked 1 [read_task_7, list_call]) w0 = (w', Inr (n', s'))
         \<and> messages s' = messages (token_written (asked 1 [read_task_7, list_call])) @ ms
         \<and> length (messages (token_written (asked 1 [read_task_7, list_call])))
             = length (messages (asked 1 [read_task_7, list_call]))
         \<and> butlast (messages (token_written (asked 1 [read_task_7, list_call])))
             = butlast (messages (asked 1 [read_task_7, list_call]))
         \<and> length ms = length [read_task_7, list_call]
         \<and> (\<forall>i<length [read_task_7, list_call].
               \<exists>c. ms ! i = ToolMessage c (tc_id ([read_task_7, list_call] ! i))
                                (tc_name ([read_task_7, list_call] ! i)))
         \<and> llm_log w' = llm_log w0
         \<and> (n' = Llm \<or> n' = Limit_llm_request)
         \<and> (\<exists>rest. llm_log (fst (step env_one_tool n' s' w'))
               = llm_log w' @ [(n', True,
                    messages (token_written (asked 1 [read_task_7, list_call]))
                      @ ms @ rest)]))"
proof -
  have a: "messages (asked 1 [read_task_7, list_call]) \<noteq> []"
    by (simp add: asked_def state0_def)
  have b: "tool_calls (last (messages (asked 1 [read_task_7, list_call])))
      = Some [read_task_7, list_call]"
    by (simp add: asked_def state0_def)
  have c: "\<forall>c\<in>set [read_task_7, list_call]. tc_name c \<in> set (map tool_name tools)"
    by (simp add: read_task_7_def list_call_def tools_def)
  from c have d: "tc_name read_task_7 \<in> set (map tool_name tools)"
    and e: "tc_name list_call \<in> set (map tool_name tools)"
    by simp_all
  from tool_results_answer_calls_in_order [OF a b c, of env_one_tool w0] a b d e
  show ?thesis by (intro conjI)
qed

text \<open>
  Claim C6 as stated fails for a message whose one tool call names no tool of the
  catalog: the step raises and appends nothing.
\<close>

theorem unknown_tool_appends_nothing:
  "tool_calls (last (messages (asked 1 [foo_call]))) = Some [foo_call]
   \<and> length [foo_call] = 1
   \<and> step env_one_tool Call_api (asked 1 [foo_call]) w0
       = (w0\<lparr>running := Call_api\<rparr>,
          Inl (NotImplementedError ''Function foo is not implemented''))"
  by (simp add: eval_defs foo_call_def env_one_tool_def)

subsection \<open>The update tools\<close>

lemma comprehension_known:
  assumes "set fs \<subseteq> dom data"
  shows "comprehension data acc fs = Inr (acc ++ (data |` set fs))"
  using assms
proof (induction fs arbitrary: acc)
  case Nil
  then show ?case by simp
next
  case (Cons f fs)
  then obtain v where v: "data f = Some v" by auto
  from Cons.prems have "set fs \<subseteq> dom data" by simp
  then have "comprehension data (acc(f \<mapsto> v)) fs = Inr (acc(f \<mapsto> v) ++ (data |` set fs))"
    by (rule Cons.IH)
  moreover have "comprehension data acc (f # fs) = comprehension data (acc(f \<mapsto> v)) fs"
    using v by simp
  moreover have "acc(f \<mapsto> v) ++ (data |` set fs) = acc ++ (data |` set (f # fs))"
    using v by (auto simp: map_add_def restrict_map_def fun_eq_iff split: option.splits)
  ultimately show ?case by simp
qed


lemma task_data_dom:
  "dom (task_data title description completed deadline collection_id)
     = {''title'', ''description'', ''completed'', ''deadline'', ''collection_id''}"
  by (auto simp: task_data_def)

lemma collection_data_dom: "dom (collection_data nm) = {''name''}"
  by (auto simp: collection_data_def)

lemma update_task_known:
  assumes "set fs \<subseteq> {''title'', ''description'', ''completed'', ''deadline'', ''collection_id''}"
  shows "update_task env task_id fs tok title description completed deadline collection_id w
    = client_call env
        \<lparr>verb = PATCH,
         url = task_manager_base_url env @ ''tasks/''
                 @ format_value env (PInt task_id) @ ''/update'',
         params = None,
         json = Some (task_data title description completed deadline collection_id |` set fs),
         headers = bearer tok\<rparr> w"
proof -
  from assms have "set fs \<subseteq> dom (task_data title description completed deadline collection_id)"
    unfolding task_data_dom .
  from comprehension_known [OF this, of Map.empty]
  show ?thesis
    unfolding update_task_def Let_def by simp
qed

lemma update_collection_known:
  assumes "set fs \<subseteq> {''name''}"
  shows "update_collection env collection_id fs tok nm w
    = client_call env
        \<lparr>verb = PATCH,
         url = task_manager_base_url env @ ''collections/''
                 @ format_value env (PInt collection_id) @ ''/update'',
         params = None,
         json = Some (collection_data nm |` set fs),
         headers = bearer tok\<rparr> w"
proof -
  from assms have "set fs \<subseteq> dom (collection_data nm)"
    unfolding collection_data_dom .
  from comprehension_known [OF this, of Map.empty]
  show ?thesis
    unfolding update_collection_def Let_def by simp
qed

lemma client_call_sent:
  "\<exists>out. client_call env rq w = (w\<lparr>http_log := http_log w @ [rq]\<rparr>, out)"
  by (cases "client_call env rq w") (auto dest: client_call_world)

lemma restrict_map_agree:
  assumes "\<forall>f\<in>S. m2 f = m1 f"
  shows "m2 |` S = m1 |` S"
  using assms by (auto simp: restrict_map_def fun_eq_iff)

text \<open>
  Claim C9.  When every entry of \<open>updated_fields\<close> is a known field name, \<open>update_task\<close>
  hands the client one PATCH request whose body has exactly the keys listed in
  \<open>updated_fields\<close>, each with the value of the parameter of that name; two calls that
  agree on the listed fields make the same request and return the same result, whatever
  is passed for the other fields (the default \<open>completed=False\<close> included).  The same
  holds for \<open>update_collection\<close> and its one field \<open>name\<close>.
\<close>

theorem update_sends_listed_fields:
  assumes "set task_fields
             \<subseteq> {''title'', ''description'', ''completed'', ''deadline'', ''collection_id''}"
    and "set collection_fields \<subseteq> {''name''}"
  shows
    "(\<exists>body out.
        update_task env task_id task_fields tok title description completed deadline
            collection_id w
          = (w\<lparr>http_log := http_log w @
                 [\<lparr>verb = PATCH,
                   url = task_manager_base_url env @ ''tasks/''
                           @ format_value env (PInt task_id) @ ''/update'',
                   params = None, json = Some body, headers = bearer tok\<rparr>]\<rparr>, out)
        \<and> dom body = set task_fields
        \<and> (\<forall>f\<in>set task_fields.
              body f = task_data title description completed deadline collection_id f))
     \<and> (\<forall>title2 description2 completed2 deadline2 collection_id2.
          (\<forall>f\<in>set task_fields.
              task_data title2 description2 completed2 deadline2 collection_id2 f
                = task_data title description completed deadline collection_id f)
          \<longrightarrow> update_task env task_id task_fields tok title2 description2 completed2 deadline2
                collection_id2 w
              = update_task env task_id task_fields tok title description completed deadline
                  collection_id w)
     \<and> (\<exists>body out.
          update_collection env coll_id collection_fields tok nm w
            = (w\<lparr>http_log := http_log w @
                   [\<lparr>verb = PATCH,
                     url = task_manager_base_url env @ ''collections/''
                             @ format_value env (PInt coll_id) @ ''/update'',
                     params = None, json = Some body, headers = bearer tok\<rparr>]\<rparr>, out)
          \<and> dom body = set collection_fields
          \<and> (\<forall>f\<in>set collection_fields. body f = collection_data nm f))
     \<and> (\<forall>nm2. (\<forall>f\<in>set collection_fields. collection_data nm2 f = collection_data nm f)
          \<longrightarrow> update_collection env coll_id collection_fields tok nm2 w
              = update_collection env coll_id collection_fields tok nm w)"
proof (intro conjI allI impI)
  let ?data = "task_data title description completed deadline collection_id"
  let ?body = "?data |` set task_fields"
  let ?rq = "\<lparr>verb = PATCH,
              url = task_manager_base_url env @ ''tasks/''
                      @ format_value env (PInt task_id) @ ''/update'',
              params = None, json = Some ?body, headers = bearer tok\<rparr>"
  obtain out where "client_call env ?rq w = (w\<lparr>http_log := http_log w @ [?rq]\<rparr>, out)"
    using client_call_sent by blast
  then have "update_task env task_id task_fields tok title description completed deadline
      collection_id w = (w\<lparr>http_log := http_log w @ [?rq]\<rparr>, out)"
    by (simp add: update_task_known [OF assms(1)])
  moreover have "set task_fields \<subseteq> dom ?data"
    unfolding task_data_dom by (rule assms(1))
  then have "dom ?body = set task_fields"
    unfolding dom_restrict by blast
  moreover have "\<forall>f\<in>set task_fields. ?body f = ?data f"
    by simp
  ultimately show "\<exists>body out.
        update_task env task_id task_fields tok title description completed deadline
            collection_id w
          = (w\<lparr>http_log := http_log w @
                 [\<lparr>verb = PATCH,
                   url = task_manager_base_url env @ ''tasks/''
                           @ format_value env (PInt task_id) @ ''/update'',
                   params = None, json = Some body, headers = bearer tok\<rparr>]\<rparr>, out)
        \<and> dom body = set task_fields
        \<and> (\<forall>f\<in>set task_fields.
              body f = task_data title description completed deadline collection_id f)"
    by blast
next
  fix title2 description2 completed2 deadline2 collection_id2
  assume "\<forall>f\<in>set task_fields.
              task_data title2 description2 completed2 deadline2 collection_id2 f
                = task_data title description completed deadline collection_id f"
  then have "task_data title2 description2 completed2 deadline2 collection_id2 |` set task_fields
      = task_data title description completed deadline collection_id |` set task_fields"
    by (rule restrict_map_agree)
  then show "update_task env task_id task_fields tok title2 description2 completed2 deadline2
                collection_id2 w
              = update_task env task_id task_fields tok title description completed deadline
                  collection_id w"
    by (simp add: update_task_known [OF assms(1)])
next
  let ?body = "collection_data nm |` set collection_fields"
  let ?rq = "\<lparr>verb = PATCH,
              url = task_manager_base_url env @ ''collections/''
                      @ format_value env (PInt coll_id) @ ''/update'',
              params = None, json = Some ?body, headers = bearer tok\<rparr>"
  obtain out where "client_call env ?rq w = (w\<lparr>http_log := http_log w @ [?rq]\<rparr>, out)"
    using client_call_sent by blast
  then have "update_collection env coll_id collection_fields tok nm w
      = (w\<lparr>http_log := http_log w @ [?rq]\<rparr>, out)"
    by (simp add: update_collection_known [OF assms(2)])
  moreover have "set collection_fields \<subseteq> dom (collection_data nm)"
    unfolding collection_data_dom by (rule assms(2))
  then have "dom ?body = set collection_fields"
    unfolding dom_restrict by blast
  moreover have "\<forall>f\<in>set collection_fields. ?body f = collection_data nm f"
    by simp
  ultimately show "\<exists>body out.
          update_collection env coll_id collection_fields tok nm w
            = (w\<lparr>http_log := http_log w @
                   [\<lparr>verb = PATCH,
                     url = task_manager_base_url env @ ''collections/''
                             @ format_value env (PInt coll_id) @ ''/update'',
                     params = None, json = Some body, headers = bearer tok\<rparr>]\<rparr>, out)
          \<and> dom body = set collection_fields
          \<and> (\<forall>f\<in>set collection_fields. body f = collection_data nm f)"
    by blast
next
  fix nm2
  assume "\<forall>f\<in>set collection_fields. collection_data nm2 f = collection_data nm f"
  then have "collection_data nm2 |` set collection_fields
      = collection_data nm |` set collection_fields"
    by (rule restrict_map_agree)
  then show "update_collection env coll_id collection_fields tok nm2 w
              = update_collection env coll_id collection_fields tok nm w"
    by (simp add: update_collection_known [OF assms(2)])
qed


theorem update_sends_listed_fields_witness:
  "set [''title'', ''deadline'']
     \<subseteq> {''title'', ''description'', ''completed'', ''deadline'', ''collection_id''}
   \<and> set [''name''] \<subseteq> {''name''}
   \<and> (\<exists>body out.
         update_task env_one_tool 7 [''title'', ''deadline''] ''secret'' (Some ''pay rent'') None
             False PNone None w0
           = (w0\<lparr>http_log := http_log w0 @
                  [\<lparr>verb = PATCH,
                    url = task_manager_base_url env_one_tool @ ''tasks/''
                            @ format_value env_one_tool (PInt 7) @ ''/update'',
                    params = None, json = Some body, headers = bearer ''secret''\<rparr>]\<rparr>, out)
         \<and> dom body = set [''title'', ''deadline'']
         \<and> body ''title'' = Some (PStr ''pay rent'') \<and> body ''deadline'' = Some PNone)
   \<and> update_task env_one_tool 7 [''title'', ''deadline''] ''secret'' (Some ''pay rent'')
         (Some ''unlisted'') True PNone (Some 3) w0
       = update_task env_one_tool 7 [''title'', ''deadline''] ''secret'' (Some ''pay rent'') None
           False PNone None w0
   \<and> (\<exists>body out.
         update_collection env_one_tool 5 [''name''] ''secret'' (Some ''home'') w0
           = (w0\<lparr>http_log := http_log w0 @
                  [\<lparr>verb = PATCH,
                    url = task_manager_base_url env_one_tool @ ''collections/''
                            @ format_value env_one_tool (PInt 5) @ ''/update'',
                    params = None, json = Some body, headers = bearer ''secret''\<rparr>]\<rparr>, out)
         \<and> dom body = set [''name'']
         \<and> body ''name'' = Some (PStr ''home''))"
proof -
  have a: "set [''title'', ''deadline'']
     \<subseteq> {''title'', ''description'', ''completed'', ''deadline'', ''collection_id''}"
    by simp
  have b: "set [''name''] \<subseteq> {''name''}"
    by simp
  note inst = update_sends_listed_fields [OF a b, of env_one_tool 7 "''secret''"
      "Some ''pay rent''" None False PNone None w0 5 "Some ''home''"]
  from inst obtain body out where
    t: "update_task env_one_tool 7 [''title'', ''deadline''] ''secret'' (Some ''pay rent'') None
             False PNone None w0
           = (w0\<lparr>http_log := http_log w0 @
                  [\<lparr>verb = PATCH,
                    url = task_manager_base_url env_one_tool @ ''tasks/''
                            @ format_value env_one_tool (PInt 7) @ ''/update'',
                    params = None, json = Some body, headers = bearer ''secret''\<rparr>]\<rparr>, out)"
      "dom body = set [''title'', ''deadline'']"
      "\<forall>f\<in>set [''title'', ''deadline'']. body f = task_data (Some ''pay rent'') None False PNone None f"
    by blast
  from t(3) have t3: "body ''title'' = Some (PStr ''pay rent'') \<and> body ''deadline'' = Some PNone"
    by (simp add: task_data_def)
  have "\<forall>f\<in>set [''title'', ''deadline''].
      task_data (Some ''pay rent'') (Some ''unlisted'') True PNone (Some 3) f
        = task_data (Some ''pay rent'') None False PNone None f"
    by (simp add: task_data_def)
  with inst have e: "update_task env_one_tool 7 [''title'', ''deadline''] ''secret''
        (Some ''pay rent'') (Some ''unlisted'') True PNone (Some 3) w0
       = update_task env_one_tool 7 [''title'', ''deadline''] ''secret'' (Some ''pay rent'') None
           False PNone None w0"
    by blast
  from inst obtain cbody cout where
    c: "update_collection env_one_tool 5 [''name''] ''secret'' (Some ''home'') w0
           = (w0\<lparr>http_log := http_log w0 @
                  [\<lparr>verb = PATCH,
                    url = task_manager_base_url env_one_tool @ ''collections/''
                            @ format_value env_one_tool (PInt 5) @ ''/update'',
                    params = None, json = Some cbody, headers = bearer ''secret''\<rparr>]\<rparr>, cout)"
      "dom cbody = set [''name'']"
      "\<forall>f\<in>set [''name'']. cbody f = collection_data (Some ''home'') f"
    by blast
  from c(3) have c3: "cbody ''name'' = Some (PStr ''home'')"
    by (simp add: collection_data_def)
  from a b t(1,2) t3 e c(1,2) c3 show ?thesis
    by blast
qed


subsection \<open>Unknown field names\<close>















subsection \<open>The credential\<close>

lemma req_str_token: "req_str env (a(''token'' \<mapsto> PStr tok)) ''token'' = Inr tok"
  by (simp add: req_str_def)

lemma client_call_bearer:
  assumes "client_call env rq w = (w', r)"
  shows "\<exists>rqs. http_log w' = http_log w @ rqs \<and> (\<forall>x\<in>set rqs. headers x = headers rq)"
  using client_call_world [OF assms] by (intro exI [of _ "[rq]"]) simp

lemma no_call_bearer:
  "\<exists>rqs. http_log w = http_log w @ rqs \<and> (\<forall>rq\<in>set rqs. headers rq = bearer tok)"
  by (intro exI [of _ "[]"]) simp

lemma ainvoke_bearer:
  assumes "ainvoke env f (a(''token'' \<mapsto> PStr tok)) w = (w', r)"
  shows "\<exists>rqs. http_log w' = http_log w @ rqs \<and> (\<forall>rq\<in>set rqs. headers rq = bearer tok)"
proof (cases "bound_call env f (a(''token'' \<mapsto> PStr tok))")
  case (Inl e)
  with assms have "w' = w" by (simp add: ainvoke_def)
  then show ?thesis by (simp add: no_call_bearer)
next
  case (Inr call)
  with assms have c: "call w = (w', r)" by (simp add: ainvoke_def)
  show ?thesis
  proof (cases f)
    case T_create_task
    with Inr c show ?thesis
      by (auto simp: arg_Inr req_str_token create_task_def no_call_bearer
          split: sum.splits dest!: client_call_bearer)
  next
    case T_read_task
    with Inr c show ?thesis
      by (auto simp: arg_Inr req_str_token read_task_def dest!: client_call_bearer)
  next
    case T_task_list
    with Inr c show ?thesis
      by (auto simp: arg_Inr req_str_token task_list_def dest!: client_call_bearer)
  next
    case T_update_task
    with Inr c show ?thesis
      by (auto simp: arg_Inr req_str_token update_task_def Let_def no_call_bearer
          split: sum.splits dest!: client_call_bearer)
  next
    case T_delete_task
    with Inr c show ?thesis
      by (auto simp: arg_Inr req_str_token delete_task_def dest!: client_call_bearer)
  next
    case T_create_collection
    with Inr c show ?thesis
      by (auto simp: arg_Inr req_str_token create_collection_def dest!: client_call_bearer)
  next
    case T_read_collection
    with Inr c show ?thesis
      by (auto simp: arg_Inr req_str_token read_collection_def dest!: client_call_bearer)
  next
    case T_collection_list
    with Inr c show ?thesis
      by (auto simp: arg_Inr req_str_token collection_list_def dest!: client_call_bearer)
  next
    case T_update_collection
    with Inr c show ?thesis
      by (auto simp: arg_Inr req_str_token update_collection_def Let_def no_call_bearer
          split: sum.splits dest!: client_call_bearer)
  next
    case T_delete_collection
    with Inr c show ?thesis
      by (auto simp: arg_Inr req_str_token delete_collection_def dest!: client_call_bearer)
  qed
qed


lemma tool_loop_bearer:
  assumes "tool_loop env tok tcs acc w = (w', r)"
  shows "\<exists>rqs. http_log w' = http_log w @ rqs \<and> (\<forall>rq\<in>set rqs. headers rq = bearer tok)"
  using assms
proof (induction tcs arbitrary: acc w)
  case Nil
  then show ?case by (simp add: no_call_bearer)
next
  case (Cons tc tcs)
  show ?case
  proof (cases "get_function_by_name (tc_name tc)")
    case (Inl e)
    with Cons.prems show ?thesis by (simp add: no_call_bearer)
  next
    case (Inr f)
    obtain w1 r1 where a: "ainvoke env f ((tc_args tc)(''token'' \<mapsto> PStr tok)) w = (w1, r1)"
      by (cases "ainvoke env f ((tc_args tc)(''token'' \<mapsto> PStr tok)) w")
    from Cons.prems Inr a obtain acc' where "tool_loop env tok tcs acc' w1 = (w', r)"
      by (auto simp: Let_def)
    from Cons.IH [OF this] obtain rqs where
      rqs: "http_log w' = http_log w1 @ rqs" "\<forall>rq\<in>set rqs. headers rq = bearer tok"
      by blast
    from ainvoke_bearer [OF a] obtain rqs1 where
      rqs1: "http_log w1 = http_log w @ rqs1" "\<forall>rq\<in>set rqs1. headers rq = bearer tok"
      by blast
    from rqs rqs1 show ?thesis
      by (intro exI [of _ "rqs1 @ rqs"]) auto
  qed
qed

lemma same_but_token:
  assumes "(a1 :: dict)(''token'' := None) = a2(''token'' := None)"
  shows "a1(''token'' \<mapsto> v) = a2(''token'' \<mapsto> v)"
proof -
  have "a1(''token'' \<mapsto> v) = (a1(''token'' := None))(''token'' \<mapsto> v)"
    by (simp only: fun_upd_upd)
  also have "\<dots> = (a2(''token'' := None))(''token'' \<mapsto> v)"
    by (simp only: assms)
  also have "\<dots> = a2(''token'' \<mapsto> v)"
    by (simp only: fun_upd_upd)
  finally show ?thesis .
qed

lemma tool_loop_same_but_token:
  assumes "list_all2 (\<lambda>a b. tc_name a = tc_name b \<and> tc_id a = tc_id b
             \<and> (tc_args a)(''token'' := None) = (tc_args b)(''token'' := None)) tcs1 tcs2"
  shows "tool_loop env tok tcs1 acc w = tool_loop env tok tcs2 acc w"
  using assms
proof (induction tcs1 tcs2 arbitrary: acc w rule: list_all2_induct)
  case Nil
  then show ?case by simp
next
  case (Cons a tcs1 b tcs2)
  from Cons.hyps(1) have n: "tc_name a = tc_name b" and i: "tc_id a = tc_id b"
    and t: "(tc_args a)(''token'' := None) = (tc_args b)(''token'' := None)"
    by simp_all
  from t have g: "(tc_args a)(''token'' \<mapsto> PStr tok) = (tc_args b)(''token'' \<mapsto> PStr tok)"
    by (rule same_but_token)
  show ?case
    by (simp only: tool_loop.simps n i g Cons.IH)
qed

text \<open>
  Claim C8.  Two states whose last messages ask for the same tool calls, up to what the
  model put under the key \<open>token\<close> of each argument dict, and that carry the same token,
  make \<open>call_task_manager_api\<close> do the same thing: the same requests are sent and the
  same tool messages are returned.  Every request the node sends carries the token of the
  state in its \<open>Authorization\<close> header.
\<close>

theorem token_injected:
  assumes "messages s1 \<noteq> []" and "messages s2 \<noteq> []"
    and "tool_calls (last (messages s1)) = Some tcs1"
    and "tool_calls (last (messages s2)) = Some tcs2"
    and "token s1 = token s2"
    and "list_all2 (\<lambda>a b. tc_name a = tc_name b \<and> tc_id a = tc_id b
           \<and> (tc_args a)(''token'' := None) = (tc_args b)(''token'' := None)) tcs1 tcs2"
  shows "call_task_manager_api env s1 w = call_task_manager_api env s2 w
         \<and> (\<exists>rqs. http_log (fst (call_task_manager_api env s1 w)) = http_log w @ rqs
               \<and> (\<forall>rq\<in>set rqs. headers rq = bearer (token s1)))"
proof
  from tool_loop_same_but_token [OF assms(6), of env "token s1" "[]" w] assms(1-5)
  show "call_task_manager_api env s1 w = call_task_manager_api env s2 w"
    by (simp add: call_task_manager_api_def)
next
  obtain w' r where l: "tool_loop env (token s1) tcs1 [] w = (w', r)"
    by (cases "tool_loop env (token s1) tcs1 [] w")
  with assms(1,3) have "fst (call_task_manager_api env s1 w) = w'"
    by (simp add: call_task_manager_api_def split: sum.splits)
  with tool_loop_bearer [OF l]
  show "\<exists>rqs. http_log (fst (call_task_manager_api env s1 w)) = http_log w @ rqs
               \<and> (\<forall>rq\<in>set rqs. headers rq = bearer (token s1))"
    by simp
qed

theorem token_injected_witness:
  "call_task_manager_api env_one_tool (asked 1 [read_task_7]) w0
     = call_task_manager_api env_one_tool (asked 1 [forged_read_task_7]) w0
   \<and> (\<exists>rqs. http_log (fst (call_task_manager_api env_one_tool (asked 1 [read_task_7]) w0))
               = http_log w0 @ rqs
         \<and> (\<forall>rq\<in>set rqs. headers rq = bearer (token (asked 1 [read_task_7]))))
   \<and> map headers (http_log (fst (call_task_manager_api env_one_tool
         (asked 1 [forged_read_task_7]) w0))) = [bearer ''secret'']"
proof -
  have a: "messages (asked 1 [read_task_7]) \<noteq> []"
    and b: "messages (asked 1 [forged_read_task_7]) \<noteq> []"
    and c: "tool_calls (last (messages (asked 1 [read_task_7]))) = Some [read_task_7]"
    and d: "tool_calls (last (messages (asked 1 [forged_read_task_7])))
        = Some [forged_read_task_7]"
    and e: "token (asked 1 [read_task_7]) = token (asked 1 [forged_read_task_7])"
    by (simp_all add: asked_def state0_def)
  have f: "list_all2 (\<lambda>a b. tc_name a = tc_name b \<and> tc_id a = tc_id b
           \<and> (tc_args a)(''token'' := None) = (tc_args b)(''token'' := None))
        [read_task_7] [forged_read_task_7]"
    by (simp add: read_task_7_def forged_read_task_7_def)
  have g: "map headers (http_log (fst (call_task_manager_api env_one_tool
         (asked 1 [forged_read_task_7]) w0))) = [bearer ''secret'']"
    by (simp add: eval_defs env_one_tool_def forged_read_task_7_def)
  note inst = token_injected [OF a b c d e f, of env_one_tool w0]
  from inst [THEN conjunct1] inst [THEN conjunct2] g show ?thesis
    by (intro conjI)
qed

end
